theory Spec2Isabelle
  imports Complex_Main "HOL-Library.AList" "HOL-Library.Multiset"
begin

section \<open>Numbers and dates\<close>

text \<open>
  JavaScript numbers are modelled as exact reals: every quantity of the tracker (weights,
  repetitions, minutes, volumes) is a \<^typ>\<open>real\<close>. \<open>calculateOneRepMax\<close> is left
  out: the integer it returns depends on how the double-precision quotient is rounded.
  A \<open>Date\<close> is its \<open>getTime()\<close>, an \<^typ>\<open>int\<close> of milliseconds; the local-time
  methods (\<open>setHours\<close>, \<open>getDay\<close>, \<open>setDate\<close>) are those of a zone at a fixed offset
  from UTC, the offset being folded into the timestamps.
\<close>

definition or_else :: "real option \<Rightarrow> real \<Rightarrow> real" where
  \<comment> \<open>\<open>a || b\<close> for an optional number \<open>a\<close>: \<open>b\<close> when \<open>a\<close> is absent or zero.\<close>
  "or_else a b = (case a of None \<Rightarrow> b | Some v \<Rightarrow> if v = 0 then b else v)"

definition or_zero :: "real \<Rightarrow> real" where
  \<comment> \<open>\<open>a || 0\<close>\<close>
  "or_zero a = (if a = 0 then 0 else a)"

definition DAY :: int where
  "DAY = 24 * 60 * 60 * 1000"

definition setHours0 :: "int \<Rightarrow> int" where
  \<comment> \<open>\<open>d.setHours(0, 0, 0, 0)\<close>: the midnight that starts the day of \<open>d\<close>.\<close>
  "setHours0 t = t - t mod DAY"

definition getDay :: "int \<Rightarrow> int" where
  \<comment> \<open>\<open>d.getDay()\<close>: 0 is Sunday; 1 January 1970 was a Thursday.\<close>
  "getDay t = (t div DAY + 4) mod 7"

definition addDays :: "int \<Rightarrow> int \<Rightarrow> int" where
  \<comment> \<open>\<open>d.setDate(d.getDate() + n)\<close>\<close>
  "addDays t n = t + n * DAY"

definition dayOf :: "int \<Rightarrow> int" where
  \<comment> \<open>The calendar day of an instant, counted from the epoch.\<close>
  "dayOf t = t div DAY"

section \<open>types/workout.ts: the data model\<close>

text \<open>
  Field names follow the source; where two interfaces share a field name the record field
  carries a prefix (\<open>setId\<close> is \<open>Set.id\<close>, \<open>exId\<close> is \<open>Exercise.id\<close>, \<open>workoutKey\<close> is
  \<open>Workout.id\<close>, \<open>typeId\<close> and \<open>typeName\<close> are \<open>ExerciseType.id\<close> and \<open>.name\<close>).
  An optional field is an \<open>option\<close>.
\<close>

datatype category = swing | press | squat | deadlift | carry | other

record ExerciseType =
  typeId :: string
  typeName :: string
  category :: category
  description :: string
  instructions :: "string list"
  muscles :: "string list"
  isCustom :: bool
  createdBy :: "string option"

record WSet =
  setId :: string
  setExerciseId :: string
  targetReps :: real
  actualReps :: "real option"
  targetWeight :: real
  actualWeight :: "real option"
  restTime :: real
  completed :: bool
  setOrder :: real
  setStartTime :: "int option"
  endTime :: "int option"

record Exercise =
  exId :: string
  exWorkoutId :: string
  exerciseType :: string
  sets :: "WSet list"
  exNotes :: "string option"
  exOrder :: real

record Workout =
  workoutKey :: string
  userId :: string
  date :: int
  duration :: real
  workoutNotes :: "string option"
  exercises :: "Exercise list"
  isTemplate :: bool
  templateName :: "string option"
  completedAt :: "int option"
  createdAt :: int
  updatedAt :: int

section \<open>analytics.ts: plateau detection\<close>

record WeeklyStats =
  week :: string
  totalVolume :: real
  workoutCount :: real
  averageDuration :: real
  weekDate :: int








section \<open>analytics.ts: the dashboard statistics\<close>

datatype record_type = maxWeight | maxReps | maxVolume

record PersonalRecord =
  exerciseId :: string
  exerciseName :: string
  recordType :: record_type
  recordValue :: real
  recordDate :: int
  workoutId :: string

record DashboardStats =
  totalWorkouts :: nat
  dashTotalVolume :: real
  averageWorkoutDuration :: real
  currentStreak :: nat
  personalRecords :: "PersonalRecord list"
  recentWorkouts :: "Workout list"
  weeklyProgress :: "WeeklyStats list"

definition sort_most_recent_first :: "Workout list \<Rightarrow> Workout list" where
  \<comment> \<open>\<open>workouts.sort((a, b) => b.date.getTime() - a.date.getTime())\<close>: a stable sort,
      done in place.\<close>
  "sort_most_recent_first workouts = sort_key (\<lambda>w. - date w) workouts"

definition setVolume :: "WSet \<Rightarrow> real" where
  "setVolume s =
     (let weight = or_else (actualWeight s) (targetWeight s);
          reps = or_else (actualReps s) (targetReps s)
      in weight * reps)"

definition workoutVolume :: "Workout \<Rightarrow> real" where
  "workoutVolume workout =
     foldl (\<lambda>sum exercise. sum + foldl (\<lambda>setSum s. setSum + setVolume s) 0 (sets exercise))
       0 (exercises workout)"

definition totalVolumeOf :: "Workout list \<Rightarrow> real" where
  "totalVolumeOf workouts = foldl (\<lambda>sum workout. sum + workoutVolume workout) 0 workouts"

function streak_loop :: "int list \<Rightarrow> int \<Rightarrow> nat \<Rightarrow> nat" where
  \<comment> \<open>\<open>while (workoutDates.has(currentDate.getTime())) { streak++; one day back }\<close>\<close>
  "streak_loop workoutDates currentDate streak =
     (if currentDate \<in> set workoutDates
      then streak_loop workoutDates (addDays currentDate (- 1)) (streak + 1)
      else streak)"
  by pat_completeness auto
termination
proof (relation "measure (\<lambda>(ds, cur, k). length (filter (\<lambda>x. x \<le> cur) ds))")
  show "wf (measure (\<lambda>(ds, cur, k). length (filter (\<lambda>x. x \<le> cur) ds)))"
    by simp
next
  fix workoutDates :: "int list" and currentDate :: int and streak :: nat
  assume mem: "currentDate \<in> set workoutDates"
  let ?prev = "addDays currentDate (- 1)"
  have lt: "?prev < currentDate"
    by (simp add: addDays_def DAY_def)
  have "filter (\<lambda>x. x \<le> ?prev) workoutDates
          = filter (\<lambda>x. x \<le> ?prev) (filter (\<lambda>x. x \<le> currentDate) workoutDates)"
    using lt by (auto intro: filter_cong)
  moreover have "currentDate \<in> set (filter (\<lambda>x. x \<le> currentDate) workoutDates)"
    using mem by simp
  then have "length (filter (\<lambda>x. x \<le> ?prev) (filter (\<lambda>x. x \<le> currentDate) workoutDates))
               < length (filter (\<lambda>x. x \<le> currentDate) workoutDates)"
    using lt by (intro length_filter_less) auto
  ultimately show "((workoutDates, ?prev, streak + 1), (workoutDates, currentDate, streak))
      \<in> measure (\<lambda>(ds, cur, k). length (filter (\<lambda>x. x \<le> cur) ds))"
    by simp
qed

declare streak_loop.simps [simp del]

definition calculateWorkoutStreak :: "int \<Rightarrow> Workout list \<Rightarrow> nat" where
  \<comment> \<open>\<open>now\<close> is the clock reading of \<open>new Date()\<close>.\<close>
  "calculateWorkoutStreak now sortedWorkouts =
     (case sortedWorkouts of
        [] \<Rightarrow> 0
      | mostRecentWorkout # _ \<Rightarrow>
          let today = setHours0 now;
              mostRecentDate = setHours0 (date mostRecentWorkout);
              daysSinceLastWorkout = (today - mostRecentDate) div DAY
          in if daysSinceLastWorkout > 1 then 0
             else
               let workoutDates = map (\<lambda>w. setHours0 (date w)) sortedWorkouts;
                   currentDate = (if today \<notin> set workoutDates then addDays today (- 1) else today)
               in streak_loop workoutDates currentDate 0)"

record record_slots =
  maxWeightSlot :: "PersonalRecord option"
  maxRepsSlot :: "PersonalRecord option"
  maxVolumeSlot :: "PersonalRecord option"

definition check_record :: "PersonalRecord option \<Rightarrow> PersonalRecord \<Rightarrow> PersonalRecord option" where
  \<comment> \<open>\<open>if (!slot || v > slot.value) slot = candidate\<close>\<close>
  "check_record slot candidate =
     (case slot of
        None \<Rightarrow> Some candidate
      | Some r \<Rightarrow> if recordValue candidate > recordValue r then Some candidate else Some r)"

definition candidate :: "record_type \<Rightarrow> ExerciseType \<Rightarrow> Workout \<Rightarrow> Exercise \<Rightarrow> real \<Rightarrow> PersonalRecord" where
  "candidate ty et workout exercise v =
     \<lparr>exerciseId = exerciseType exercise, exerciseName = typeName et, recordType = ty,
      recordValue = v, recordDate = date workout, workoutId = workoutKey workout\<rparr>"

definition process_set :: "ExerciseType \<Rightarrow> Workout \<Rightarrow> Exercise \<Rightarrow> record_slots \<Rightarrow> WSet \<Rightarrow> record_slots" where
  "process_set et workout exercise exerciseRecords s =
     (let weight = or_else (actualWeight s) (targetWeight s);
          reps = or_else (actualReps s) (targetReps s);
          volume = weight * reps
      in \<lparr>maxWeightSlot =
            check_record (maxWeightSlot exerciseRecords) (candidate maxWeight et workout exercise weight),
          maxRepsSlot =
            check_record (maxRepsSlot exerciseRecords) (candidate maxReps et workout exercise reps),
          maxVolumeSlot =
            check_record (maxVolumeSlot exerciseRecords) (candidate maxVolume et workout exercise volume)\<rparr>)"

definition process_exercise ::
  "ExerciseType list \<Rightarrow> Workout \<Rightarrow> (string \<times> record_slots) list \<Rightarrow> Exercise
     \<Rightarrow> (string \<times> record_slots) list" where
  \<comment> \<open>The slots of a catalogued exercise type are updated where they stand in the map.\<close>
  "process_exercise exerciseTypes workout records exercise =
     (case find (\<lambda>et. typeId et = exerciseType exercise) exerciseTypes of
        None \<Rightarrow> records
      | Some et \<Rightarrow>
          (case map_of records (exerciseType exercise) of
             None \<Rightarrow> records
           | Some exerciseRecords \<Rightarrow>
               AList.update (exerciseType exercise)
                 (foldl (process_set et workout exercise) exerciseRecords (sets exercise))
                 records))"

definition initial_records :: "ExerciseType list \<Rightarrow> (string \<times> record_slots) list" where
  \<comment> \<open>\<open>records.set(exerciseType.id, {maxWeight: null, maxReps: null, maxVolume: null})\<close>
      for each catalogue entry: a \<open>Map\<close> keeps the place of a key that is set again.\<close>
  "initial_records exerciseTypes =
     foldl (\<lambda>records et.
              AList.update (typeId et)
                \<lparr>maxWeightSlot = None, maxRepsSlot = None, maxVolumeSlot = None\<rparr> records)
       [] exerciseTypes"

definition scan_records :: "Workout list \<Rightarrow> ExerciseType list \<Rightarrow> (string \<times> record_slots) list" where
  "scan_records workouts exerciseTypes =
     foldl (\<lambda>records workout. foldl (process_exercise exerciseTypes workout) records (exercises workout))
       (initial_records exerciseTypes) workouts"

definition slot_values :: "record_slots \<Rightarrow> PersonalRecord list" where
  \<comment> \<open>\<open>Object.values(exerciseRecords)\<close>, the null slots dropped.\<close>
  "slot_values r = List.map_filter (\<lambda>x. x) [maxWeightSlot r, maxRepsSlot r, maxVolumeSlot r]"

definition calculatePersonalRecords :: "Workout list \<Rightarrow> ExerciseType list \<Rightarrow> PersonalRecord list" where
  "calculatePersonalRecords workouts exerciseTypes =
     (let records = scan_records workouts exerciseTypes;
          allRecords = concat (map (\<lambda>(k, exerciseRecords). slot_values exerciseRecords) records)
      in take 10 (sort_key (\<lambda>r. - recordValue r) allRecords))"

definition getWeekStart :: "int \<Rightarrow> int" where
  "getWeekStart d =
     (let day = getDay d;
          weekStart = addDays d (- day)
      in setHours0 weekStart)"

definition weekKeyOf :: "int \<Rightarrow> int" where
  \<comment> \<open>\<open>weekStart.toISOString().split('T')[0]\<close>: the calendar date of the week start,
      kept as its day number.\<close>
  "weekKeyOf weekStart = dayOf weekStart"

definition formatWeekLabel :: "(int \<Rightarrow> string) \<Rightarrow> int \<Rightarrow> string" where
  \<comment> \<open>\<open>fmt\<close> is \<open>toLocaleDateString('en-US', {month: 'short', day: 'numeric'})\<close>.\<close>
  "formatWeekLabel fmt weekStart =
     (let weekEnd = addDays weekStart 6
      in fmt weekStart @ '' - '' @ fmt weekEnd)"

record week_data =
  wdTotalVolume :: real
  wdWorkoutCount :: real
  wdTotalDuration :: real
  wdDate :: int

definition add_to_week :: "(int \<times> week_data) list \<Rightarrow> Workout \<Rightarrow> (int \<times> week_data) list" where
  \<comment> \<open>One turn of \<open>workouts.forEach\<close>: a new key goes to the end of the map, an old one
      is updated where it stands.\<close>
  "add_to_week weeklyData workout =
     (let weekStart = getWeekStart (date workout);
          weekKey = weekKeyOf weekStart;
          weekData = (case map_of weeklyData weekKey of
                        None \<Rightarrow> \<lparr>wdTotalVolume = 0, wdWorkoutCount = 0, wdTotalDuration = 0,
                                  wdDate = weekStart\<rparr>
                      | Some d \<Rightarrow> d)
      in AList.update weekKey
           \<lparr>wdTotalVolume = wdTotalVolume weekData + workoutVolume workout,
            wdWorkoutCount = wdWorkoutCount weekData + 1,
            wdTotalDuration = wdTotalDuration weekData + or_zero (duration workout),
            wdDate = wdDate weekData\<rparr>
           weeklyData)"

definition calculateWeeklyProgress :: "(int \<Rightarrow> string) \<Rightarrow> Workout list \<Rightarrow> WeeklyStats list" where
  "calculateWeeklyProgress fmt workouts =
     (let weeklyData = foldl add_to_week [] workouts;
          weeklyStats =
            map (\<lambda>(k, d).
                   \<lparr>week = formatWeekLabel fmt (wdDate d),
                    totalVolume = wdTotalVolume d,
                    workoutCount = wdWorkoutCount d,
                    averageDuration =
                      (if wdWorkoutCount d > 0 then wdTotalDuration d / wdWorkoutCount d else 0),
                    weekDate = wdDate d\<rparr>)
              weeklyData
      in sort_key weekDate weeklyStats)"

definition calculateDashboardStats ::
  "int \<Rightarrow> (int \<Rightarrow> string) \<Rightarrow> Workout list \<Rightarrow> ExerciseType list
     \<Rightarrow> DashboardStats \<times> Workout list" where
  \<comment> \<open>The result, and the caller's \<open>workouts\<close> array as the call leaves it:
      \<open>sort\<close> works in place, so \<open>sortedWorkouts\<close> and \<open>workouts\<close> are one array and
      every later line reads the sorted one.\<close>
  "calculateDashboardStats now fmt workouts0 exerciseTypes =
     (let sortedWorkouts = sort_most_recent_first workouts0;
          workouts = sortedWorkouts;
          totalWorkouts = length workouts;
          totalDuration = foldl (\<lambda>sum w. sum + or_zero (duration w)) 0 workouts;
          averageWorkoutDuration =
            (if totalWorkouts > 0 then totalDuration / real totalWorkouts else 0);
          totalVolume = totalVolumeOf workouts;
          currentStreak = calculateWorkoutStreak now sortedWorkouts;
          recentWorkouts = take 5 sortedWorkouts;
          personalRecords = calculatePersonalRecords workouts exerciseTypes;
          weeklyProgress = calculateWeeklyProgress fmt workouts
      in (\<lparr>totalWorkouts = totalWorkouts,
           dashTotalVolume = totalVolume,
           averageWorkoutDuration = averageWorkoutDuration,
           currentStreak = currentStreak,
           personalRecords = personalRecords,
           recentWorkouts = recentWorkouts,
           weeklyProgress = weeklyProgress\<rparr>,
          workouts))"




text \<open>The total volume in the words of the specification: \<open>a ?? b\<close> falls back to \<open>b\<close>
  only when \<open>a\<close> is absent.\<close>

definition nullish :: "real option \<Rightarrow> real \<Rightarrow> real" where
  "nullish a b = (case a of None \<Rightarrow> b | Some v \<Rightarrow> v)"

definition volume_by_spec :: "Workout list \<Rightarrow> real" where
  "volume_by_spec workouts =
     (\<Sum>w\<leftarrow>workouts. \<Sum>e\<leftarrow>exercises w. \<Sum>s\<leftarrow>sets e.
        nullish (actualWeight s) (targetWeight s) * nullish (actualReps s) (targetReps s))"

definition no_zero_actuals :: "Workout list \<Rightarrow> bool" where
  "no_zero_actuals workouts =
     (\<forall>w\<in>set workouts. \<forall>e\<in>set (exercises w). \<forall>s\<in>set (sets e).
        actualWeight s \<noteq> Some 0 \<and> actualReps s \<noteq> Some 0)"

text \<open>Sample data: a kettlebell swing set, exercise and workout.\<close>

definition sample_set :: "string \<Rightarrow> real \<Rightarrow> real option \<Rightarrow> real \<Rightarrow> real option \<Rightarrow> WSet" where
  "sample_set i tr ar tw aw =
     \<lparr>setId = i, setExerciseId = ''ex1'', targetReps = tr, actualReps = ar,
      targetWeight = tw, actualWeight = aw, restTime = 60, completed = True,
      setOrder = 1, setStartTime = None, endTime = None\<rparr>"

definition sample_exercise :: "string \<Rightarrow> string \<Rightarrow> WSet list \<Rightarrow> Exercise" where
  "sample_exercise i ty ss =
     \<lparr>exId = i, exWorkoutId = ''1'', exerciseType = ty, sets = ss,
      exNotes = None, exOrder = 1\<rparr>"

definition sample_workout :: "string \<Rightarrow> int \<Rightarrow> Exercise list \<Rightarrow> Workout" where
  "sample_workout i d es =
     \<lparr>workoutKey = i, userId = ''user1'', date = d, duration = 45, workoutNotes = None,
      exercises = es, isTemplate = False, templateName = None, completedAt = Some d,
      createdAt = d, updatedAt = d\<rparr>"


definition sample_type :: "string \<Rightarrow> string \<Rightarrow> ExerciseType" where
  "sample_type i n =
     \<lparr>typeId = i, typeName = n, category = swing, description = ''Two-handed kettlebell swing'',
      instructions = [''Hinge at hips'', ''Swing to shoulder height''],
      muscles = [''glutes'', ''hamstrings'', ''shoulders''], isCustom = False,
      createdBy = None\<rparr>"

text \<open>
  The personal records in the words of the specification: for an exercise type and a
  record kind, the candidates are the values of all sets of exercises of that type, in
  the order in which the workouts, their exercises and their sets are scanned.
\<close>

fun kind_value :: "record_type \<Rightarrow> WSet \<Rightarrow> real" where
  "kind_value maxWeight s = or_else (actualWeight s) (targetWeight s)"
| "kind_value maxReps s = or_else (actualReps s) (targetReps s)"
| "kind_value maxVolume s =
     or_else (actualWeight s) (targetWeight s) * or_else (actualReps s) (targetReps s)"

fun slot_of :: "record_type \<Rightarrow> record_slots \<Rightarrow> PersonalRecord option" where
  "slot_of maxWeight r = maxWeightSlot r"
| "slot_of maxReps r = maxRepsSlot r"
| "slot_of maxVolume r = maxVolumeSlot r"

definition record_at ::
  "record_type \<Rightarrow> (string \<times> record_slots) list \<Rightarrow> string \<Rightarrow> PersonalRecord option" where
  "record_at ty records e = (case map_of records e of None \<Rightarrow> None | Some r \<Rightarrow> slot_of ty r)"

definition exercise_candidates ::
  "record_type \<Rightarrow> ExerciseType \<Rightarrow> Workout \<Rightarrow> Exercise \<Rightarrow> PersonalRecord list" where
  "exercise_candidates ty et w ex =
     (if exerciseType ex = typeId et
      then map (\<lambda>s. candidate ty et w ex (kind_value ty s)) (sets ex) else [])"

definition scan_candidates ::
  "record_type \<Rightarrow> ExerciseType \<Rightarrow> Workout list \<Rightarrow> PersonalRecord list" where
  "scan_candidates ty et ws =
     concat (map (\<lambda>w. concat (map (exercise_candidates ty et w) (exercises w))) ws)"

definition all_records :: "Workout list \<Rightarrow> ExerciseType list \<Rightarrow> PersonalRecord list" where
  "all_records ws ets =
     concat (map (\<lambda>(k, exerciseRecords). slot_values exerciseRecords) (scan_records ws ets))"

definition first_maximum :: "PersonalRecord list \<Rightarrow> PersonalRecord option \<Rightarrow> bool" where
  \<comment> \<open>The record is the first candidate of greatest value, or there is no candidate.\<close>
  "first_maximum cs r =
     (case r of
        None \<Rightarrow> cs = []
      | Some best \<Rightarrow>
          (\<exists>i < length cs. best = cs ! i
             \<and> (\<forall>j < length cs. recordValue (cs ! j) \<le> recordValue best)
             \<and> (\<forall>j < i. recordValue (cs ! j) < recordValue best)))"

section \<open>WorkoutExecutor.tsx and SetTracker.tsx: the session engine\<close>

text \<open>
  The component state of \<open>WorkoutExecutor\<close> is a record; each handler is a function from
  the state before the event to the state after it, the queued \<open>setSession\<close> updates
  applied in order. \<open>completeWorkoutCalled\<close> records that \<open>completeWorkout\<close> ran (it writes
  the workout to the store, removes the snapshot and calls \<open>onComplete\<close>) and \<open>exited\<close>
  that \<open>onExit\<close> was called.
\<close>

datatype timer_type = RestTimer | ExerciseTimer | WorkoutTimer

record WorkoutSession =
  sessionId :: string
  sessionWorkoutId :: string
  startTime :: int
  currentExerciseIndex :: int
  currentSetIndex :: int
  isPaused :: bool
  totalRestTime :: real
  completedSets :: "WSet list"
  sessionNotes :: string

record executor =
  workoutState :: "Workout option"
  sessionState :: "WorkoutSession option"
  currentTimer :: "timer_type option"
  restTimeState :: real
  isWorkoutPaused :: bool
  completeWorkoutCalled :: bool
  exited :: bool

definition js_index :: "'a list \<Rightarrow> int \<Rightarrow> 'a option" where
  \<comment> \<open>\<open>xs[i] || null\<close> for an array of objects: \<open>null\<close> outside the array.\<close>
  "js_index xs i = (if 0 \<le> i \<and> i < int (length xs) then Some (xs ! nat i) else None)"

definition initial_executor :: executor where
  "initial_executor =
     \<lparr>workoutState = None, sessionState = None, currentTimer = None, restTimeState = 0,
      isWorkoutPaused = False, completeWorkoutCalled = False, exited = False\<rparr>"

definition initializeSession :: "string \<Rightarrow> int \<Rightarrow> Workout \<Rightarrow> executor \<Rightarrow> executor" where
  \<comment> \<open>\<open>uuid\<close> is \<open>crypto.randomUUID()\<close> and \<open>now\<close> is \<open>new Date()\<close>.\<close>
  "initializeSession uuid now workout st =
     st\<lparr>sessionState := Some
          \<lparr>sessionId = uuid, sessionWorkoutId = workoutKey workout, startTime = now,
           currentExerciseIndex = 0, currentSetIndex = 0, isPaused = False,
           totalRestTime = 0, completedSets = [], sessionNotes = ''''\<rparr>\<rparr>"

datatype stored_session =
    NoItem \<comment> \<open>\<open>localStorage.getItem\<close> gave \<open>null\<close> or the empty string\<close>
  | Unparsable \<comment> \<open>\<open>JSON.parse\<close> threw\<close>
  | Parsed WorkoutSession

definition loadWorkout ::
  "string \<Rightarrow> int \<Rightarrow> bool \<Rightarrow> Workout option \<Rightarrow> stored_session \<Rightarrow> executor \<Rightarrow> executor" where
  \<comment> \<open>\<open>hasUser\<close>: a user is signed in; \<open>workoutData\<close>: what \<open>db.workouts.get\<close> found
      (\<open>None\<close> also when the read failed).\<close>
  "loadWorkout uuid now hasUser workoutData existingSession st =
     (if \<not> hasUser then st\<lparr>exited := True\<rparr>
      else
        case workoutData of
          None \<Rightarrow> st\<lparr>exited := True\<rparr>
        | Some wd \<Rightarrow>
            let st1 = st\<lparr>workoutState := Some wd\<rparr>
            in (case existingSession of
                  NoItem \<Rightarrow> initializeSession uuid now wd st1
                | Unparsable \<Rightarrow> initializeSession uuid now wd st1
                | Parsed parsedSession \<Rightarrow> st1\<lparr>sessionState := Some parsedSession\<rparr>))"

definition getCurrentExercise :: "executor \<Rightarrow> Exercise option" where
  "getCurrentExercise st =
     (case (workoutState st, sessionState st) of
        (Some workout, Some session) \<Rightarrow> js_index (exercises workout) (currentExerciseIndex session)
      | _ \<Rightarrow> None)"

definition getCurrentSet :: "executor \<Rightarrow> WSet option" where
  "getCurrentSet st =
     (case (getCurrentExercise st, sessionState st) of
        (Some exercise, Some session) \<Rightarrow> js_index (sets exercise) (currentSetIndex session)
      | _ \<Rightarrow> None)"

definition completeWorkout :: "executor \<Rightarrow> executor" where
  "completeWorkout st =
     (case (sessionState st, workoutState st) of
        (Some session, Some workout) \<Rightarrow> st\<lparr>completeWorkoutCalled := True\<rparr>
      | _ \<Rightarrow> st)"

definition moveToNextExercise :: "executor \<Rightarrow> executor" where
  "moveToNextExercise st =
     (case (sessionState st, workoutState st) of
        (Some session, Some workout) \<Rightarrow>
          if currentExerciseIndex session < int (length (exercises workout)) - 1
          then st\<lparr>sessionState := Some (session
                     \<lparr>currentExerciseIndex := currentExerciseIndex session + 1,
                      currentSetIndex := 0\<rparr>),
                  currentTimer := None\<rparr>
          else completeWorkout st
      | _ \<Rightarrow> st)"

definition completeSet :: "int \<Rightarrow> real \<Rightarrow> real \<Rightarrow> executor \<Rightarrow> executor" where
  \<comment> \<open>\<open>now\<close> is the \<open>new Date()\<close> stored as the end time of the set.\<close>
  "completeSet now reps weight st =
     (case (sessionState st, workoutState st) of
        (Some session, Some workout) \<Rightarrow>
          (case getCurrentSet st of
             None \<Rightarrow> st
           | Some currentSet \<Rightarrow>
               let completedSet = currentSet
                     \<lparr>actualReps := Some reps, actualWeight := Some weight,
                      completed := True, endTime := Some now\<rparr>;
                   updatedCompletedSets =
                     filter (\<lambda>cs. setId cs \<noteq> setId currentSet) (completedSets session)
                       @ [completedSet];
                   st1 = st\<lparr>sessionState := Some (session\<lparr>completedSets := updatedCompletedSets\<rparr>)\<rparr>
               in (case getCurrentExercise st of
                     Some exercise \<Rightarrow>
                       if currentSetIndex session < int (length (sets exercise)) - 1
                       then st1\<lparr>restTimeState := restTime currentSet,
                               currentTimer := Some RestTimer\<rparr>
                       else moveToNextExercise st1
                   | None \<Rightarrow> moveToNextExercise st1))
      | _ \<Rightarrow> st)"

definition moveToNextSet :: "executor \<Rightarrow> executor" where
  "moveToNextSet st =
     (case (sessionState st, workoutState st) of
        (Some session, Some workout) \<Rightarrow>
          (case getCurrentExercise st of
             None \<Rightarrow> st
           | Some exercise \<Rightarrow>
               (if currentSetIndex session < int (length (sets exercise)) - 1
                then st\<lparr>sessionState := Some (session
                       \<lparr>currentSetIndex := currentSetIndex session + 1\<rparr>)\<rparr>
                else moveToNextExercise st)
               \<lparr>currentTimer := None\<rparr>)
      | _ \<Rightarrow> st)"

definition handleRestComplete :: "executor \<Rightarrow> executor" where
  "handleRestComplete st = moveToNextSet (st\<lparr>currentTimer := None\<rparr>)"

definition skipRest :: "executor \<Rightarrow> executor" where
  "skipRest st = moveToNextSet (st\<lparr>currentTimer := None\<rparr>)"

definition pauseWorkout :: "executor \<Rightarrow> executor" where
  "pauseWorkout st =
     st\<lparr>isWorkoutPaused := True,
        sessionState := map_option (\<lambda>prev. prev\<lparr>isPaused := True\<rparr>) (sessionState st)\<rparr>"

definition resumeWorkout :: "executor \<Rightarrow> executor" where
  "resumeWorkout st =
     st\<lparr>isWorkoutPaused := False,
        sessionState := map_option (\<lambda>prev. prev\<lparr>isPaused := False\<rparr>) (sessionState st)\<rparr>"

definition handleComplete ::
  "(real \<Rightarrow> real \<Rightarrow> 'st \<Rightarrow> 'st) \<Rightarrow> real \<Rightarrow> real \<Rightarrow> 'st \<Rightarrow> 'st" where
  \<comment> \<open>\<open>SetTracker.handleComplete\<close>, with the \<open>onComplete\<close> property it was given; it
      returns nothing on either path.\<close>
  "handleComplete onComplete reps weight st =
     (if reps \<le> 0 \<or> weight < 0 then st else onComplete reps weight st)"

datatype action =
    CompleteSet int real real
  | RestComplete
  | SkipRest
  | Pause
  | Resume

fun perform_action :: "action \<Rightarrow> executor \<Rightarrow> executor" where
  "perform_action (CompleteSet now reps weight) st = handleComplete (completeSet now) reps weight st"
| "perform_action RestComplete st = handleRestComplete st"
| "perform_action SkipRest st = skipRest st"
| "perform_action Pause st = pauseWorkout st"
| "perform_action Resume st = resumeWorkout st"

definition cursor_indexes_pair :: "Workout \<Rightarrow> WorkoutSession \<Rightarrow> bool" where
  "cursor_indexes_pair workout session =
     (case js_index (exercises workout) (currentExerciseIndex session) of
        None \<Rightarrow> False
      | Some exercise \<Rightarrow> js_index (sets exercise) (currentSetIndex session) \<noteq> None)"

definition past_last_set :: "Workout \<Rightarrow> WorkoutSession \<Rightarrow> bool" where
  \<comment> \<open>The position after the last set: the exercise index one past the last exercise, or
      the set index one past the last set of the last exercise.\<close>
  "past_last_set workout session =
     ((currentExerciseIndex session = int (length (exercises workout))
         \<and> currentSetIndex session = 0)
      \<or> (exercises workout \<noteq> []
         \<and> currentExerciseIndex session = int (length (exercises workout)) - 1
         \<and> currentSetIndex session = int (length (sets (last (exercises workout))))))"

definition cursor_ok :: "Workout \<Rightarrow> WorkoutSession \<Rightarrow> bool" where
  "cursor_ok workout session =
     (cursor_indexes_pair workout session \<or> past_last_set workout session)"

definition every_exercise_has_a_set :: "Workout \<Rightarrow> bool" where
  "every_exercise_has_a_set workout = list_all (\<lambda>e. sets e \<noteq> []) (exercises workout)"

inductive reachable :: "Workout \<Rightarrow> executor \<Rightarrow> bool" for workout :: Workout where
  fresh: "existingSession = NoItem \<or> existingSession = Unparsable \<Longrightarrow>
          reachable workout (loadWorkout uuid now True (Some workout) existingSession initial_executor)"
| restored: "cursor_ok workout snapshot \<Longrightarrow>
          reachable workout (loadWorkout uuid now True (Some workout) (Parsed snapshot) initial_executor)"
| acted: "reachable workout st \<Longrightarrow> reachable workout (perform_action a st)"

section \<open>Timer.tsx: the countdown timer\<close>

text \<open>
  A call that may throw is given by its \<open>outcome\<close>; an effect maps the trace of what
  happened so far to whether it returned or raised and to the trace after it.
\<close>

datatype outcome = Succeeds | Throws

datatype completion = Returned | Raised

datatype event =
    PlayedSound timer_type
  | PlayedTick
  | Warned string
  | ShowedNotification timer_type
  | ScheduledClose
  | Vibrated
  | CalledOnComplete

type_synonym effect = "event list \<Rightarrow> completion \<times> event list"

definition perform :: "outcome \<Rightarrow> event \<Rightarrow> effect" where
  "perform oc ev trace = (case oc of Succeeds \<Rightarrow> (Returned, trace @ [ev]) | Throws \<Rightarrow> (Raised, trace))"

definition skip :: effect where
  "skip trace = (Returned, trace)"

definition seq :: "effect \<Rightarrow> effect \<Rightarrow> effect" where
  \<comment> \<open>\<open>a; b\<close>: an exception of \<open>a\<close> leaves the block.\<close>
  "seq a b trace = (case a trace of (Raised, l) \<Rightarrow> (Raised, l) | (Returned, l) \<Rightarrow> b l)"

definition try_catch :: "effect \<Rightarrow> effect \<Rightarrow> effect" where
  \<comment> \<open>\<open>try { body } catch (error) { handler }\<close>\<close>
  "try_catch body handler trace =
     (case body trace of (Raised, l) \<Rightarrow> handler l | (Returned, l) \<Rightarrow> (Returned, l))"

definition console_warn :: "string \<Rightarrow> effect" where
  "console_warn msg = perform Succeeds (Warned msg)"

record timer_env =
  playSound :: "timer_type \<Rightarrow> outcome"
  playTick :: outcome
  notificationInWindow :: bool
  permissionGranted :: bool
  newNotification :: outcome
  vibratorInNavigator :: bool
  vibrate :: "outcome option"

definition showNotification :: "timer_env \<Rightarrow> timer_type \<Rightarrow> effect" where
  "showNotification env ty =
     (if notificationInWindow env \<and> permissionGranted env
      then try_catch
             (seq (perform (newNotification env) (ShowedNotification ty))
                  (if ty \<noteq> WorkoutTimer then perform Succeeds ScheduledClose else skip))
             (console_warn ''Failed to show notification:'')
      else skip)"

definition handleTimerComplete :: "timer_env \<Rightarrow> timer_type \<Rightarrow> outcome option \<Rightarrow> effect" where
  \<comment> \<open>\<open>onComplete\<close> is \<open>None\<close> when the property is not given (\<open>onComplete?.()\<close>).\<close>
  "handleTimerComplete env ty onComplete =
     seq (try_catch (perform (playSound env ty) (PlayedSound ty))
            (console_warn ''Failed to play completion sound:''))
    (seq (showNotification env ty)
    (seq (if vibratorInNavigator env
          then try_catch
                 (case vibrate env of None \<Rightarrow> skip | Some oc \<Rightarrow> perform oc Vibrated)
                 (console_warn ''Vibration failed:'')
          else skip)
         (case onComplete of None \<Rightarrow> skip | Some oc \<Rightarrow> perform oc CalledOnComplete)))"

record TimerState =
  timeRemaining :: real
  isRunning :: bool
  timerPaused :: bool
  hasStarted :: bool

definition tick :: "timer_env \<Rightarrow> TimerState \<Rightarrow> event list \<Rightarrow> TimerState \<times> completion \<times> event list" where
  \<comment> \<open>The state update made once a second while the timer runs.\<close>
  "tick env prev trace =
     (let newTime = timeRemaining prev - 1;
          sounded = (if newTime \<le> 10 \<and> newTime > 0
                     then try_catch (perform (playTick env) PlayedTick)
                            (console_warn ''Failed to play tick sound:'')
                     else skip) trace
      in (if newTime \<le> 0 then prev\<lparr>timeRemaining := 0, isRunning := False\<rparr>
          else prev\<lparr>timeRemaining := newTime\<rparr>,
          sounded))"

definition completion_effect ::
  "timer_env \<Rightarrow> timer_type \<Rightarrow> outcome option \<Rightarrow> TimerState \<Rightarrow> TimerState \<Rightarrow> effect" where
  \<comment> \<open>The effect with dependencies \<open>[timeRemaining, hasStarted]\<close>, run after a render in
      which one of the two changed.\<close>
  "completion_effect env ty onComplete before after =
     (if (timeRemaining after \<noteq> timeRemaining before \<or> hasStarted after \<noteq> hasStarted before)
         \<and> timeRemaining after = 0 \<and> hasStarted after
      then handleTimerComplete env ty onComplete
      else skip)"

definition timer_second ::
  "timer_env \<Rightarrow> timer_type \<Rightarrow> outcome option \<Rightarrow> bool \<Rightarrow> TimerState \<Rightarrow> event list
     \<Rightarrow> TimerState \<times> completion \<times> event list" where
  \<comment> \<open>One second of a mounted timer: the interval fires when the timer is running, active
      (the \<open>isActive\<close> property) and above zero, then the completion effect is considered.\<close>
  "timer_second env ty onComplete isActive st trace =
     (if isRunning st \<and> isActive \<and> timeRemaining st > 0
      then (case tick env st trace of
              (st', Raised, l) \<Rightarrow> (st', Raised, l)
            | (st', Returned, l) \<Rightarrow> (st', completion_effect env ty onComplete st st' l))
      else (st, Returned, trace))"

text \<open>An effect is best-effort when it always returns and never calls the completion
  callback; it calls back once when it always returns having called the callback exactly
  once, as the last thing it does.\<close>

definition best_effort :: "effect \<Rightarrow> bool" where
  "best_effort m =
     (\<forall>trace. \<exists>xs. m trace = (Returned, trace @ xs) \<and> CalledOnComplete \<notin> set xs)"

definition calls_back_once :: "effect \<Rightarrow> bool" where
  "calls_back_once m =
     (\<forall>trace. \<exists>xs. m trace = (Returned, trace @ xs @ [CalledOnComplete])
                     \<and> CalledOnComplete \<notin> set xs)"

text \<open>The invariant of the session engine: the workout is loaded, a session exists and
  its cursor is in range.\<close>

definition session_inv :: "Workout \<Rightarrow> executor \<Rightarrow> bool" where
  "session_inv wk st =
     (workoutState st = Some wk
      \<and> (case sessionState st of None \<Rightarrow> False | Some s \<Rightarrow> cursor_ok wk s))"

text \<open>Sample formatter and projections used to display results.\<close>

definition no_label :: "int \<Rightarrow> string" where
  "no_label d = ''''"

definition record_summary :: "PersonalRecord \<Rightarrow> record_type \<times> real \<times> int \<times> string" where
  "record_summary r = (recordType r, recordValue r, recordDate r, workoutId r)"

definition cursor_summary :: "Workout \<Rightarrow> WorkoutSession \<Rightarrow> int \<times> int \<times> bool" where
  "cursor_summary workout session =
     (currentExerciseIndex session, currentSetIndex session, cursor_ok workout session)"

definition completed_summary ::
  "WorkoutSession \<Rightarrow> (string \<times> real option \<times> real option \<times> bool) list" where
  "completed_summary session =
     map (\<lambda>cs. (setId cs, actualReps cs, actualWeight cs, completed cs)) (completedSets session)"

section \<open>Properties of the plateau detection\<close>

lemma foldl_plus_sum_list: "foldl (\<lambda>sum val. sum + f val) a xs = a + sum_list (map f xs)"
  for a :: real
  by (induction xs arbitrary: a) (simp_all add: add.assoc)










section \<open>Properties of the dashboard statistics\<close>

subsection \<open>Total volume\<close>

lemma dash_snd: "snd (calculateDashboardStats now fmt ws ets) = sort_most_recent_first ws"
  by (simp add: calculateDashboardStats_def Let_def)

lemma dash_totalVolume:
  "dashTotalVolume (fst (calculateDashboardStats now fmt ws ets)) = totalVolumeOf (sort_most_recent_first ws)"
  by (simp add: calculateDashboardStats_def Let_def)


lemma dash_personalRecords:
  "personalRecords (fst (calculateDashboardStats now fmt ws ets))
     = calculatePersonalRecords (sort_most_recent_first ws) ets"
  by (simp add: calculateDashboardStats_def Let_def)

lemma dash_weeklyProgress:
  "weeklyProgress (fst (calculateDashboardStats now fmt ws ets))
     = calculateWeeklyProgress fmt (sort_most_recent_first ws)"
  by (simp add: calculateDashboardStats_def Let_def)

lemma mset_sort_most_recent_first: "mset (sort_most_recent_first ws) = mset ws"
  by (simp add: sort_most_recent_first_def)

lemma sum_list_sort_most_recent_first:
  "sum_list (map f (sort_most_recent_first ws)) = sum_list (map f ws)"
  for f :: "Workout \<Rightarrow> real"
proof -
  have "sum_mset (image_mset f (mset (sort_most_recent_first ws))) = sum_mset (image_mset f (mset ws))"
    by (simp only: mset_sort_most_recent_first)
  then show ?thesis
    by (simp only: mset_map [symmetric] sum_mset_sum_list)
qed

lemma workoutVolume_sum:
  "workoutVolume w = (\<Sum>e\<leftarrow>exercises w. \<Sum>s\<leftarrow>sets e. setVolume s)"
  by (simp add: workoutVolume_def foldl_plus_sum_list)

lemma totalVolumeOf_sum:
  "totalVolumeOf ws = (\<Sum>w\<leftarrow>ws. \<Sum>e\<leftarrow>exercises w. \<Sum>s\<leftarrow>sets e. setVolume s)"
  by (simp add: totalVolumeOf_def foldl_plus_sum_list workoutVolume_sum)

lemma or_else_nullish: "a \<noteq> Some 0 \<Longrightarrow> or_else a b = nullish a b"
  by (simp add: or_else_def nullish_def split: option.splits)

lemma volume_by_spec_agrees:
  assumes "no_zero_actuals ws"
  shows "(\<Sum>w\<leftarrow>ws. \<Sum>e\<leftarrow>exercises w. \<Sum>s\<leftarrow>sets e. setVolume s) = volume_by_spec ws"
  unfolding volume_by_spec_def
  using assms
  by (intro arg_cong [where f = sum_list] map_cong refl)
     (simp add: no_zero_actuals_def setVolume_def or_else_nullish)

text \<open>
  C4, as amended. The total volume is the sum over every set of every exercise of every
  workout of \<open>(actualWeight || targetWeight) * (actualReps || targetReps)\<close>: the target
  value stands in when the actual value is absent and also when it is zero. Where no set
  records an actual weight or an actual repetition count of 0 this is the sum of
  \<open>(actualWeight ?? targetWeight) * (actualReps ?? targetReps)\<close>.
\<close>

theorem totalVolume_truthy_fallback:
  "dashTotalVolume (fst (calculateDashboardStats now fmt workouts exerciseTypes))
     = (\<Sum>w\<leftarrow>workouts. \<Sum>e\<leftarrow>exercises w. \<Sum>s\<leftarrow>sets e.
          or_else (actualWeight s) (targetWeight s) * or_else (actualReps s) (targetReps s))
   \<and> (no_zero_actuals workouts \<longrightarrow>
        dashTotalVolume (fst (calculateDashboardStats now fmt workouts exerciseTypes))
          = volume_by_spec workouts)"
proof -
  have "dashTotalVolume (fst (calculateDashboardStats now fmt workouts exerciseTypes))
          = (\<Sum>w\<leftarrow>workouts. \<Sum>e\<leftarrow>exercises w. \<Sum>s\<leftarrow>sets e. setVolume s)"
    by (simp only: dash_totalVolume totalVolumeOf_sum sum_list_sort_most_recent_first)
  then show ?thesis
    using volume_by_spec_agrees [of workouts] by (simp add: setVolume_def)
qed

text \<open>
  C4 as stated fails: a completed set of 10 repetitions at a recorded weight of 0 against a
  target of 16 counts 160 towards the total, where the sum with \<open>??\<close> counts 0.
\<close>

theorem totalVolume_zero_actual_counterexample:
  "dashTotalVolume (fst (calculateDashboardStats 0 no_label
      [sample_workout ''1'' 0
         [sample_exercise ''ex1'' ''1'' [sample_set ''set1'' 10 (Some 10) 16 (Some 0)]]] [])) = 160
   \<and> volume_by_spec
      [sample_workout ''1'' 0
         [sample_exercise ''ex1'' ''1'' [sample_set ''set1'' 10 (Some 10) 16 (Some 0)]]] = 0"
  by (simp add: dash_totalVolume totalVolumeOf_def workoutVolume_def setVolume_def
      sort_most_recent_first_def sample_workout_def sample_exercise_def sample_set_def
      or_else_def volume_by_spec_def nullish_def)

theorem totalVolume_truthy_fallback_witness:
  "no_zero_actuals
      [sample_workout ''1'' 0
         [sample_exercise ''ex1'' ''1''
            [sample_set ''set1'' 10 (Some 10) 16 (Some 16), sample_set ''set2'' 10 (Some 8) 16 None]]]
   \<and> dashTotalVolume (fst (calculateDashboardStats 0 no_label
      [sample_workout ''1'' 0
         [sample_exercise ''ex1'' ''1''
            [sample_set ''set1'' 10 (Some 10) 16 (Some 16), sample_set ''set2'' 10 (Some 8) 16 None]]]
      [])) = 288"
  using totalVolume_truthy_fallback [of 0 no_label 
      "[sample_workout ''1'' 0
         [sample_exercise ''ex1'' ''1''
            [sample_set ''set1'' 10 (Some 10) 16 (Some 16), sample_set ''set2'' 10 (Some 8) 16 None]]]" "[]"]
  by (simp add: no_zero_actuals_def sample_workout_def sample_exercise_def sample_set_def
      or_else_def volume_by_spec_def nullish_def)

subsection \<open>Current streak\<close>

lemma DAY_pos: "0 < DAY"
  by (simp add: DAY_def)

lemma setHours0_dayOf: "setHours0 t = DAY * dayOf t"
  by (simp add: setHours0_def dayOf_def minus_mod_eq_mult_div)

lemma dayOf_midnight: "dayOf (DAY * d) = d"
  using DAY_pos by (simp add: dayOf_def)











subsection \<open>Effect on the workouts array\<close>

lemma sort_most_recent_first_idem:
  "sort_most_recent_first (sort_most_recent_first ws) = sort_most_recent_first ws"
  by (simp add: sort_most_recent_first_def sort_key_id_if_sorted)

lemma calculateDashboardStats_of_sorted:
  "calculateDashboardStats now fmt (sort_most_recent_first ws) ets = calculateDashboardStats now fmt ws ets"
  by (simp add: calculateDashboardStats_def sort_most_recent_first_idem)

text \<open>
  C10, as amended. A call of \<open>calculateDashboardStats\<close> leaves the caller's workouts
  array holding the same workouts sorted most recent first: no workout is added, dropped
  or changed, workouts of one date keep their order, and an array that is already in that
  order is left as it is. The result is a function of the inputs and the clock reading,
  and a second call on the array as the first call left it returns the same statistics
  and leaves the array as it is.
\<close>

theorem calculateDashboardStats_sorts_in_place:
  "mset (snd (calculateDashboardStats now fmt workouts exerciseTypes)) = mset workouts
   \<and> sorted (map (\<lambda>w. - date w) (snd (calculateDashboardStats now fmt workouts exerciseTypes)))
   \<and> filter (\<lambda>w. date w = d) (snd (calculateDashboardStats now fmt workouts exerciseTypes))
       = filter (\<lambda>w. date w = d) workouts
   \<and> (sorted (map (\<lambda>w. - date w) workouts) \<longrightarrow>
        snd (calculateDashboardStats now fmt workouts exerciseTypes) = workouts)
   \<and> calculateDashboardStats now fmt
        (snd (calculateDashboardStats now fmt workouts exerciseTypes)) exerciseTypes
       = calculateDashboardStats now fmt workouts exerciseTypes"
proof -
  have stable: "filter (\<lambda>w. date w = d) (sort_most_recent_first workouts)
                  = filter (\<lambda>w. date w = d) workouts"
    using sort_key_stable [of "\<lambda>w. - date w" "- d" workouts]
    by (simp add: sort_most_recent_first_def)
  have same: "sorted (map (\<lambda>w. - date w) workouts) \<longrightarrow> sort_most_recent_first workouts = workouts"
    by (simp add: sort_most_recent_first_def sort_key_id_if_sorted)
  have srt: "sorted (map (\<lambda>w. - date w) (sort_most_recent_first workouts))"
    by (simp add: sort_most_recent_first_def)
  show ?thesis
    using stable same srt
    by (simp only: dash_snd mset_sort_most_recent_first calculateDashboardStats_of_sorted)
qed

theorem calculateDashboardStats_sorts_in_place_witness:
  "sorted (map (\<lambda>w. - date w) [sample_workout ''2'' 86400000 [], sample_workout ''1'' 0 []])
   \<and> snd (calculateDashboardStats 0 no_label
        [sample_workout ''2'' 86400000 [], sample_workout ''1'' 0 []] [])
      = [sample_workout ''2'' 86400000 [], sample_workout ''1'' 0 []]"
  using calculateDashboardStats_sorts_in_place [of 0 no_label
      "[sample_workout ''2'' 86400000 [], sample_workout ''1'' 0 []]" "[]"]
  by (simp add: sample_workout_def)

text \<open>
  C10 as stated fails: given an older workout followed by a newer one, the call leaves
  the array with the newer one first.
\<close>

theorem calculateDashboardStats_reorders_input_counterexample:
  "snd (calculateDashboardStats 0 no_label
        [sample_workout ''1'' 0 [], sample_workout ''2'' 86400000 []] [])
     = [sample_workout ''2'' 86400000 [], sample_workout ''1'' 0 []]
   \<and> snd (calculateDashboardStats 0 no_label
        [sample_workout ''1'' 0 [], sample_workout ''2'' 86400000 []] [])
     \<noteq> [sample_workout ''1'' 0 [], sample_workout ''2'' 86400000 []]"
  by (simp add: dash_snd sort_most_recent_first_def sample_workout_def)

subsection \<open>Weekly series\<close>

lemma dayOf_addDays: "dayOf (addDays t n) = dayOf t + n"
  using DAY_pos by (simp add: dayOf_def addDays_def)

lemma getWeekStart_day: "getWeekStart t = DAY * (dayOf t - (dayOf t + 4) mod 7)"
proof -
  have "getWeekStart t = DAY * dayOf (addDays t (- getDay t))"
    by (simp add: getWeekStart_def Let_def setHours0_dayOf)
  also have "\<dots> = DAY * (dayOf t - getDay t)"
    by (simp only: dayOf_addDays) simp
  finally show ?thesis
    by (simp add: getDay_def dayOf_def)
qed

lemma weekKeyOf_getWeekStart: "weekKeyOf (getWeekStart t) = dayOf t - (dayOf t + 4) mod 7"
  by (simp add: weekKeyOf_def getWeekStart_day dayOf_midnight)

lemma week_keys_far_apart:
  assumes "7 \<le> \<bar>dayOf t2 - dayOf t1\<bar>"
  shows "weekKeyOf (getWeekStart t1) \<noteq> weekKeyOf (getWeekStart t2)"
proof -
  have "0 \<le> (dayOf t1 + 4) mod 7" "(dayOf t1 + 4) mod 7 < 7"
    "0 \<le> (dayOf t2 + 4) mod 7" "(dayOf t2 + 4) mod 7 < 7"
    by simp_all
  then show ?thesis
    unfolding weekKeyOf_getWeekStart using assms by linarith
qed

lemma week_keys_8_days: "\<bar>dayOf t2 - dayOf t1\<bar> = 8 \<Longrightarrow> weekKeyOf (getWeekStart t1) \<noteq> weekKeyOf (getWeekStart t2)"
  by (rule week_keys_far_apart) simp

lemma week_keys_7_days: "\<bar>dayOf t2 - dayOf t1\<bar> = 7 \<Longrightarrow> weekKeyOf (getWeekStart t1) \<noteq> weekKeyOf (getWeekStart t2)"
  by (rule week_keys_far_apart) simp

lemma weekly_sorted: "sorted (map weekDate (calculateWeeklyProgress fmt ws))"
  by (simp add: calculateWeeklyProgress_def Let_def)

lemma two_buckets:
  assumes "weekKeyOf (getWeekStart (date a)) \<noteq> weekKeyOf (getWeekStart (date b))"
  shows "length (calculateWeeklyProgress fmt [a, b]) = 2
         \<and> map workoutCount (calculateWeeklyProgress fmt [a, b]) = [1, 1]"
proof -
  have "map fst (foldl add_to_week [] [a, b])
          = [weekKeyOf (getWeekStart (date a)), weekKeyOf (getWeekStart (date b))]
        \<and> map (\<lambda>(k, d). wdWorkoutCount d) (foldl add_to_week [] [a, b]) = [1, 1]"
    using assms by (simp add: add_to_week_def Let_def)
  then obtain x y where xy: "foldl add_to_week [] [a, b] = [x, y]"
     and c: "wdWorkoutCount (snd x) = 1" "wdWorkoutCount (snd y) = 1"
    by (cases "foldl add_to_week [] [a, b]") (auto simp: split_def)
  show ?thesis
    unfolding calculateWeeklyProgress_def Let_def xy
    using c by (simp add: split_def insort_key.simps)
qed


text \<open>
  C7. Two workouts whose dates lie 8 calendar days apart get different week keys, and so
  do two workouts on the same weekday one week apart; the weekly progress of two such
  workouts has two buckets of one workout each. The weekly series is sorted oldest to
  newest by the start date of the bucket.
\<close>

theorem weekly_buckets_separate_and_sorted:
  "(\<bar>dayOf (date b) - dayOf (date a)\<bar> = 8 \<longrightarrow>
      weekKeyOf (getWeekStart (date a)) \<noteq> weekKeyOf (getWeekStart (date b))
      \<and> length (calculateWeeklyProgress fmt [a, b]) = 2
      \<and> map workoutCount (calculateWeeklyProgress fmt [a, b]) = [1, 1])
   \<and> (\<bar>dayOf (date b) - dayOf (date a)\<bar> = 7 \<longrightarrow>
      weekKeyOf (getWeekStart (date a)) \<noteq> weekKeyOf (getWeekStart (date b))
      \<and> length (calculateWeeklyProgress fmt [a, b]) = 2
      \<and> map workoutCount (calculateWeeklyProgress fmt [a, b]) = [1, 1])
   \<and> sorted (map weekDate (calculateWeeklyProgress fmt workouts))"
  using week_keys_8_days [of "date b" "date a"] week_keys_7_days [of "date b" "date a"]
    two_buckets [of a b fmt] weekly_sorted [of fmt workouts]
  by blast

theorem weekly_buckets_separate_and_sorted_witness:
  "\<bar>dayOf (date (sample_workout ''2'' (11 * DAY + 5000) []))
      - dayOf (date (sample_workout ''1'' (3 * DAY) []))\<bar> = 8
   \<and> \<bar>dayOf (date (sample_workout ''3'' (10 * DAY + 5000) []))
      - dayOf (date (sample_workout ''1'' (3 * DAY) []))\<bar> = 7
   \<and> map workoutCount (calculateWeeklyProgress no_label
        [sample_workout ''1'' (3 * DAY) [], sample_workout ''2'' (11 * DAY + 5000) []]) = [1, 1]
   \<and> map workoutCount (calculateWeeklyProgress no_label
        [sample_workout ''1'' (3 * DAY) [], sample_workout ''3'' (10 * DAY + 5000) []]) = [1, 1]"
proof -
  have d: "dayOf (date (sample_workout ''2'' (11 * DAY + 5000) [])) = 11"
    "dayOf (date (sample_workout ''3'' (10 * DAY + 5000) [])) = 10"
    "dayOf (date (sample_workout ''1'' (3 * DAY) [])) = 3"
    by (simp_all add: sample_workout_def dayOf_def DAY_def)
  show ?thesis
    using weekly_buckets_separate_and_sorted [of "sample_workout ''2'' (11 * DAY + 5000) []"
        "sample_workout ''1'' (3 * DAY) []" no_label "[]"]
      weekly_buckets_separate_and_sorted [of "sample_workout ''3'' (10 * DAY + 5000) []"
        "sample_workout ''1'' (3 * DAY) []" no_label "[]"]
    by (simp add: d)
qed

subsection \<open>Personal records\<close>

lemma first_maximum_snoc:
  assumes "first_maximum cs r"
  shows "first_maximum (cs @ [c]) (check_record r c)"
proof (cases r)
  case None
  with assms have "cs = []" by (simp add: first_maximum_def)
  with None show ?thesis by (simp add: first_maximum_def check_record_def)
next
  case (Some best)
  with assms obtain i where i: "i < length cs" "best = cs ! i"
    and mx: "\<forall>j < length cs. recordValue (cs ! j) \<le> recordValue best"
    and fst: "\<forall>j < i. recordValue (cs ! j) < recordValue best"
    by (auto simp: first_maximum_def)
  show ?thesis
  proof (cases "recordValue c > recordValue best")
    case True
    have "\<forall>j < length cs. recordValue ((cs @ [c]) ! j) < recordValue c"
      using mx True by (auto simp: nth_append)
    moreover have "\<forall>j < length (cs @ [c]). recordValue ((cs @ [c]) ! j) \<le> recordValue c"
      using mx True by (auto simp: nth_append less_Suc_eq)
    moreover have "c = (cs @ [c]) ! length cs" by simp
    ultimately have "\<exists>i < length (cs @ [c]). c = (cs @ [c]) ! i
             \<and> (\<forall>j < length (cs @ [c]). recordValue ((cs @ [c]) ! j) \<le> recordValue c)
             \<and> (\<forall>j < i. recordValue ((cs @ [c]) ! j) < recordValue c)"
      by (intro exI [of _ "length cs"]) simp
    then show ?thesis
      using True Some by (simp add: first_maximum_def check_record_def)
  next
    case False
    have "\<forall>j < length (cs @ [c]). recordValue ((cs @ [c]) ! j) \<le> recordValue best"
      using mx False by (auto simp: nth_append less_Suc_eq)
    moreover have "\<forall>j < i. recordValue ((cs @ [c]) ! j) < recordValue best"
      using fst i by (auto simp: nth_append)
    moreover have "best = (cs @ [c]) ! i" "i < length (cs @ [c])"
      using i by (auto simp: nth_append)
    ultimately have "\<exists>i < length (cs @ [c]). best = (cs @ [c]) ! i
             \<and> (\<forall>j < length (cs @ [c]). recordValue ((cs @ [c]) ! j) \<le> recordValue best)
             \<and> (\<forall>j < i. recordValue ((cs @ [c]) ! j) < recordValue best)"
      by blast
    then show ?thesis
      using False Some by (simp add: first_maximum_def check_record_def)
  qed
qed

lemma first_maximum_foldl: "first_maximum cs (foldl check_record None cs)"
proof (induction cs rule: rev_induct)
  case Nil
  show ?case by (simp add: first_maximum_def)
next
  case (snoc c cs)
  then show ?case by (simp add: first_maximum_snoc)
qed

lemma slot_of_process_set:
  "slot_of ty (process_set et w ex recs s)
     = check_record (slot_of ty recs) (candidate ty et w ex (kind_value ty s))"
  by (cases ty) (simp_all add: process_set_def Let_def)

lemma slot_of_process_sets:
  "slot_of ty (foldl (process_set et w ex) recs ss)
     = foldl check_record (slot_of ty recs) (map (\<lambda>s. candidate ty et w ex (kind_value ty s)) ss)"
  by (induction ss arbitrary: recs) (simp_all add: slot_of_process_set)

lemma find_typeId: "find (\<lambda>x. typeId x = e) ets = Some et \<Longrightarrow> typeId et = e"
  by (auto simp: find_Some_iff)

lemma process_exercise_at:
  assumes "find (\<lambda>x. typeId x = e) ets = Some et" and "map_of m e = Some recs"
  shows "map_of (process_exercise ets w m ex) e
           = Some (if exerciseType ex = e then foldl (process_set et w ex) recs (sets ex) else recs)"
proof (cases "exerciseType ex = e")
  case True
  with assms show ?thesis
    by (simp add: process_exercise_def update_conv')
next
  case False
  with assms show ?thesis
    by (simp add: process_exercise_def update_conv' split: option.splits)
qed

lemma record_at_process_exercise:
  assumes "find (\<lambda>x. typeId x = e) ets = Some et" and "map_of m e \<noteq> None"
  shows "map_of (process_exercise ets w m ex) e \<noteq> None
         \<and> record_at ty (process_exercise ets w m ex) e
           = foldl check_record (record_at ty m e) (exercise_candidates ty et w ex)"
proof -
  from assms obtain recs where recs: "map_of m e = Some recs" by auto
  have e: "typeId et = e" by (rule find_typeId [OF assms(1)])
  show ?thesis
    using process_exercise_at [OF assms(1) recs, of w ex] recs e
    by (simp add: record_at_def exercise_candidates_def slot_of_process_sets)
qed

lemma record_at_exercises:
  assumes "find (\<lambda>x. typeId x = e) ets = Some et" and "map_of m e \<noteq> None"
  shows "map_of (foldl (process_exercise ets w) m exs) e \<noteq> None
         \<and> record_at ty (foldl (process_exercise ets w) m exs) e
           = foldl check_record (record_at ty m e) (concat (map (exercise_candidates ty et w) exs))"
  using assms(2)
proof (induction exs arbitrary: m)
  case Nil
  then show ?case by simp
next
  case (Cons ex exs)
  note step = record_at_process_exercise [OF assms(1) Cons.prems, of w ex ty]
  show ?case
    using Cons.IH [of "process_exercise ets w m ex"] step by simp
qed

lemma record_at_workouts:
  assumes "find (\<lambda>x. typeId x = e) ets = Some et" and "map_of m e \<noteq> None"
  shows "map_of (foldl (\<lambda>records workout. foldl (process_exercise ets workout) records (exercises workout)) m ws) e \<noteq> None
         \<and> record_at ty (foldl (\<lambda>records workout. foldl (process_exercise ets workout) records (exercises workout)) m ws) e
           = foldl check_record (record_at ty m e) (scan_candidates ty et ws)"
  using assms(2)
proof (induction ws arbitrary: m)
  case Nil
  then show ?case by (simp add: scan_candidates_def)
next
  case (Cons w ws)
  note step = record_at_exercises [OF assms(1) Cons.prems, of w "exercises w" ty]
  show ?case
    using Cons.IH [of "foldl (process_exercise ets w) m (exercises w)"] step
    by (simp add: scan_candidates_def)
qed

lemma map_of_initial_fold:
  "map_of (foldl (\<lambda>records et. AList.update (typeId et) E records) m ets) e
     = (if e \<in> typeId ` set ets then Some E else map_of m e)"
  by (induction ets arbitrary: m) (auto simp: update_conv')

lemma map_of_initial_records:
  "map_of (initial_records ets) e
     = (if e \<in> typeId ` set ets
        then Some \<lparr>maxWeightSlot = None, maxRepsSlot = None, maxVolumeSlot = None\<rparr> else None)"
  by (simp add: initial_records_def map_of_initial_fold)

lemma find_in_catalogue: "find (\<lambda>x. typeId x = e) ets = Some et \<Longrightarrow> e \<in> typeId ` set ets"
  by (auto simp: find_Some_iff)

lemma record_at_scan:
  assumes "find (\<lambda>x. typeId x = e) ets = Some et"
  shows "record_at ty (scan_records ws ets) e = foldl check_record None (scan_candidates ty et ws)"
proof -
  have init: "map_of (initial_records ets) e \<noteq> None"
    using find_in_catalogue [OF assms] by (simp add: map_of_initial_records)
  have "record_at ty (initial_records ets) e = None"
    using find_in_catalogue [OF assms]
    by (cases ty) (simp_all add: record_at_def map_of_initial_records)
  then show ?thesis
    using record_at_workouts [OF assms init, of ws ty] by (simp add: scan_records_def)
qed

lemma keys_process_exercise: "map fst (process_exercise ets w m ex) = map fst m"
  by (auto simp: process_exercise_def update_keys split: option.splits dest: map_of_SomeD
      intro: rev_image_eqI)

lemma keys_exercises: "map fst (foldl (process_exercise ets w) m exs) = map fst m"
  by (induction exs arbitrary: m) (simp_all add: keys_process_exercise)

lemma keys_workouts:
  "map fst (foldl (\<lambda>records workout. foldl (process_exercise ets workout) records (exercises workout)) m ws)
     = map fst m"
  by (induction ws arbitrary: m) (simp_all add: keys_exercises)

lemma distinct_initial_fold:
  "distinct (map fst m) \<Longrightarrow>
   distinct (map fst (foldl (\<lambda>records et. AList.update (typeId et) E records) m ets))"
  by (induction ets arbitrary: m) (simp_all add: distinct_update)

lemma distinct_scan_keys: "distinct (map fst (scan_records ws ets))"
  by (simp add: scan_records_def keys_workouts initial_records_def distinct_initial_fold)

lemma ex_record_type: "(\<exists>ty. P ty) \<longleftrightarrow> P maxWeight \<or> P maxReps \<or> P maxVolume"
  by (metis record_type.exhaust)

lemma slot_values_iff: "r \<in> set (slot_values recs) \<longleftrightarrow> (\<exists>ty. slot_of ty recs = Some r)"
  unfolding ex_record_type
  by (cases "maxWeightSlot recs"; cases "maxRepsSlot recs"; cases "maxVolumeSlot recs")
     (auto simp: slot_values_def List.map_filter_def)

lemma all_records_iff:
  "r \<in> set (all_records ws ets) \<longleftrightarrow> (\<exists>e ty. record_at ty (scan_records ws ets) e = Some r)"
proof -
  have "r \<in> set (all_records ws ets)
          \<longleftrightarrow> (\<exists>k recs. (k, recs) \<in> set (scan_records ws ets) \<and> r \<in> set (slot_values recs))"
    by (auto simp: all_records_def)
  also have "\<dots> \<longleftrightarrow> (\<exists>k recs. map_of (scan_records ws ets) k = Some recs \<and> (\<exists>ty. slot_of ty recs = Some r))"
    using distinct_scan_keys [of ws ets] by (simp add: slot_values_iff)
  also have "\<dots> \<longleftrightarrow> (\<exists>e ty. record_at ty (scan_records ws ets) e = Some r)"
  proof
    assume "\<exists>k recs. map_of (scan_records ws ets) k = Some recs \<and> (\<exists>ty. slot_of ty recs = Some r)"
    then obtain k recs ty where "map_of (scan_records ws ets) k = Some recs" "slot_of ty recs = Some r"
      by blast
    then have "record_at ty (scan_records ws ets) k = Some r"
      by (simp add: record_at_def)
    then show "\<exists>e ty. record_at ty (scan_records ws ets) e = Some r" by blast
  next
    assume "\<exists>e ty. record_at ty (scan_records ws ets) e = Some r"
    then obtain e ty where h: "record_at ty (scan_records ws ets) e = Some r" by blast
    then obtain recs where "map_of (scan_records ws ets) e = Some recs" "slot_of ty recs = Some r"
      by (cases "map_of (scan_records ws ets) e") (simp_all add: record_at_def)
    then show "\<exists>k recs. map_of (scan_records ws ets) k = Some recs \<and> (\<exists>ty. slot_of ty recs = Some r)"
      by blast
  qed
  finally show ?thesis .
qed

lemma calculatePersonalRecords_top10:
  "calculatePersonalRecords ws ets = take 10 (sort_key (\<lambda>r. - recordValue r) (all_records ws ets))"
  by (simp add: calculatePersonalRecords_def all_records_def Let_def)

text \<open>
  C5, as amended. For every workout history and exercise catalogue, and for each
  catalogued exercise type and each record kind (greatest weight, repetitions, single-set
  volume), the personal record is absent when no set of that exercise type exists and is
  otherwise the candidate of greatest value among all sets of that type, carrying the date
  and the id of that set's workout; when several sets tie on the value the retained record
  is the first one in scan order, and the dashboard scans the workouts most recent first.
  The records returned are the ten first of all these records sorted by descending value.
\<close>

theorem personal_records_first_in_scan_order:
  "(find (\<lambda>x. typeId x = e) exerciseTypes = Some et \<longrightarrow>
      first_maximum (scan_candidates ty et (sort_most_recent_first workouts))
        (record_at ty (scan_records (sort_most_recent_first workouts) exerciseTypes) e))
   \<and> (r \<in> set (all_records (sort_most_recent_first workouts) exerciseTypes)
        \<longleftrightarrow> (\<exists>e ty. record_at ty (scan_records (sort_most_recent_first workouts) exerciseTypes) e
                      = Some r))
   \<and> personalRecords (fst (calculateDashboardStats now fmt workouts exerciseTypes))
       = take 10 (sort_key (\<lambda>r. - recordValue r)
                   (all_records (sort_most_recent_first workouts) exerciseTypes))
   \<and> length (personalRecords (fst (calculateDashboardStats now fmt workouts exerciseTypes))) \<le> 10
   \<and> sorted (map (\<lambda>r. - recordValue r)
        (personalRecords (fst (calculateDashboardStats now fmt workouts exerciseTypes))))"
proof -
  let ?scan = "sort_most_recent_first workouts"
  have a: "find (\<lambda>x. typeId x = e) exerciseTypes = Some et \<longrightarrow>
      first_maximum (scan_candidates ty et ?scan) (record_at ty (scan_records ?scan exerciseTypes) e)"
    using first_maximum_foldl [of "scan_candidates ty et ?scan"]
    by (simp add: record_at_scan)
  have b: "r \<in> set (all_records ?scan exerciseTypes)
        \<longleftrightarrow> (\<exists>e ty. record_at ty (scan_records ?scan exerciseTypes) e = Some r)"
    by (rule all_records_iff)
  have c: "personalRecords (fst (calculateDashboardStats now fmt workouts exerciseTypes))
       = take 10 (sort_key (\<lambda>r. - recordValue r) (all_records ?scan exerciseTypes))"
    by (simp only: dash_personalRecords calculatePersonalRecords_top10)
  have d: "length (take 10 (sort_key (\<lambda>r. - recordValue r) (all_records ?scan exerciseTypes))) \<le> 10"
    by simp
  have "sorted (take 10 (map (\<lambda>r. - recordValue r)
          (sort_key (\<lambda>r. - recordValue r) (all_records ?scan exerciseTypes))))"
    by (intro sorted_wrt_take) simp
  then have e: "sorted (map (\<lambda>r. - recordValue r)
      (take 10 (sort_key (\<lambda>r. - recordValue r) (all_records ?scan exerciseTypes))))"
    by (simp only: take_map)
  show ?thesis
    using a b d e unfolding c by blast
qed


text \<open>
  C5 as stated fails on ties: the dashboard scans the workouts most recent first, so of
  two sets that tie on a value the one of the more recent workout is retained. Two
  workouts on day 0 and day 1, each with one set of 10 repetitions at 16, give records
  dated to the workout of day 1.
\<close>

theorem personal_record_tie_counterexample:
  "map record_summary
     (personalRecords (fst (calculateDashboardStats 0 no_label
        [sample_workout ''1'' 0
           [sample_exercise ''ex1'' ''1'' [sample_set ''set1'' 10 (Some 10) 16 (Some 16)]],
         sample_workout ''2'' 86400000
           [sample_exercise ''ex2'' ''1'' [sample_set ''set3'' 10 (Some 10) 16 (Some 16)]]]
        [sample_type ''1'' ''Kettlebell Swing''])))
   = [(maxVolume, 160, 86400000, ''2''), (maxWeight, 16, 86400000, ''2''),
      (maxReps, 10, 86400000, ''2'')]"
  by (simp add: dash_personalRecords calculatePersonalRecords_def scan_records_def
      initial_records_def process_exercise_def process_set_def check_record_def candidate_def
      slot_values_def List.map_filter_def sort_most_recent_first_def sample_workout_def
      sample_exercise_def sample_set_def sample_type_def or_else_def record_summary_def Let_def)

theorem personal_records_first_in_scan_order_witness:
  "find (\<lambda>x. typeId x = ''1'') [sample_type ''1'' ''Kettlebell Swing'']
     = Some (sample_type ''1'' ''Kettlebell Swing'')
   \<and> first_maximum
       (scan_candidates maxWeight (sample_type ''1'' ''Kettlebell Swing'')
          (sort_most_recent_first
            [sample_workout ''1'' 0
               [sample_exercise ''ex1'' ''1'' [sample_set ''set1'' 10 (Some 10) 16 (Some 16)]],
             sample_workout ''2'' 86400000
               [sample_exercise ''ex2'' ''1'' [sample_set ''set3'' 10 (Some 10) 16 (Some 16)]]]))
       (record_at maxWeight
          (scan_records
            (sort_most_recent_first
              [sample_workout ''1'' 0
                 [sample_exercise ''ex1'' ''1'' [sample_set ''set1'' 10 (Some 10) 16 (Some 16)]],
               sample_workout ''2'' 86400000
                 [sample_exercise ''ex2'' ''1'' [sample_set ''set3'' 10 (Some 10) 16 (Some 16)]]])
            [sample_type ''1'' ''Kettlebell Swing''])
          ''1'')"
  using personal_records_first_in_scan_order
    [where e = "''1''" and exerciseTypes = "[sample_type ''1'' ''Kettlebell Swing'']"
       and et = "sample_type ''1'' ''Kettlebell Swing''" and ty = maxWeight
       and workouts = "[sample_workout ''1'' 0
               [sample_exercise ''ex1'' ''1'' [sample_set ''set1'' 10 (Some 10) 16 (Some 16)]],
             sample_workout ''2'' 86400000
               [sample_exercise ''ex2'' ''1'' [sample_set ''set3'' 10 (Some 10) 16 (Some 16)]]]"
       and r = "candidate maxWeight (sample_type ''1'' ''Kettlebell Swing'')
                  (sample_workout ''2'' 86400000 []) (sample_exercise ''ex2'' ''1'' []) 16"
       and now = 0 and fmt = no_label]
  by (simp add: sample_type_def)

section \<open>Properties of the session engine\<close>

lemma nonempty_sets_at:
  assumes "every_exercise_has_a_set wk" "0 \<le> i" "i < int (length (exercises wk))"
  shows "0 < length (sets (exercises wk ! nat i))"
proof -
  have "exercises wk ! nat i \<in> set (exercises wk)"
    using assms(2,3) by (intro nth_mem) linarith
  then show ?thesis
    using assms(1) by (auto simp: every_exercise_has_a_set_def list_all_iff)
qed

lemma session_invI:
  "workoutState st = Some wk \<Longrightarrow> sessionState st = Some s \<Longrightarrow> cursor_ok wk s \<Longrightarrow> session_inv wk st"
  by (simp add: session_inv_def)

lemma session_invE:
  assumes "session_inv wk st"
  obtains s where "workoutState st = Some wk" "sessionState st = Some s" "cursor_ok wk s"
  using assms by (auto simp: session_inv_def split: option.splits)

lemma cursor_ok_fields:
  "cursor_ok wk (s\<lparr>isPaused := b\<rparr>) = cursor_ok wk s"
  "cursor_ok wk (s\<lparr>completedSets := cs\<rparr>) = cursor_ok wk s"
  by (simp_all add: cursor_ok_def cursor_indexes_pair_def past_last_set_def split: option.splits)

lemma completeWorkout_inv: "session_inv wk st \<Longrightarrow> session_inv wk (completeWorkout st)"
  by (auto simp: session_inv_def completeWorkout_def split: option.splits)

lemma cursor_ok_nonneg: "cursor_ok wk s \<Longrightarrow> 0 \<le> currentExerciseIndex s"
  by (auto simp: cursor_ok_def cursor_indexes_pair_def past_last_set_def js_index_def
      split: option.splits if_splits)

lemma cursor_ok_set_nonneg: "cursor_ok wk s \<Longrightarrow> 0 \<le> currentSetIndex s"
  by (auto simp: cursor_ok_def cursor_indexes_pair_def past_last_set_def js_index_def
      split: option.splits if_splits)

lemma next_exercise_cursor:
  assumes wf: "every_exercise_has_a_set wk" and ok: "cursor_ok wk s"
    and lt: "currentExerciseIndex s < int (length (exercises wk)) - 1"
  shows "cursor_ok wk (s\<lparr>currentExerciseIndex := currentExerciseIndex s + 1, currentSetIndex := 0\<rparr>)"
proof -
  have "0 \<le> currentExerciseIndex s + 1" "currentExerciseIndex s + 1 < int (length (exercises wk))"
    using cursor_ok_nonneg [OF ok] lt by simp_all
  then show ?thesis
    using nonempty_sets_at [OF wf, of "currentExerciseIndex s + 1"]
    by (simp add: cursor_ok_def cursor_indexes_pair_def js_index_def)
qed

lemma moveToNextExercise_inv:
  assumes "every_exercise_has_a_set wk" "session_inv wk st"
  shows "session_inv wk (moveToNextExercise st)"
proof -
  from assms(2) obtain s where s: "workoutState st = Some wk" "sessionState st = Some s" "cursor_ok wk s"
    by (rule session_invE)
  show ?thesis
  proof (cases "currentExerciseIndex s < int (length (exercises wk)) - 1")
    case True
    then show ?thesis
      using s next_exercise_cursor [OF assms(1) s(3) True]
      by (simp add: moveToNextExercise_def session_inv_def)
  next
    case False
    then have "moveToNextExercise st = completeWorkout st"
      using s by (simp add: moveToNextExercise_def)
    then show ?thesis using completeWorkout_inv [OF assms(2)] by simp
  qed
qed

lemma session_inv_timer:
  "session_inv wk (st\<lparr>currentTimer := t\<rparr>) = session_inv wk st"
  "session_inv wk (st\<lparr>restTimeState := r\<rparr>) = session_inv wk st"
  by (simp_all add: session_inv_def)

lemma completeSet_inv:
  assumes "every_exercise_has_a_set wk" "session_inv wk st"
  shows "session_inv wk (completeSet now reps weight st)"
proof -
  from assms(2) obtain s where s: "workoutState st = Some wk" "sessionState st = Some s" "cursor_ok wk s"
    by (rule session_invE)
  show ?thesis
  proof (cases "getCurrentSet st")
    case None
    then show ?thesis using s assms(2) by (simp add: completeSet_def)
  next
    case (Some currentSet)
    let ?cs = "filter (\<lambda>cs. setId cs \<noteq> setId currentSet) (completedSets s)
                 @ [currentSet\<lparr>actualReps := Some reps, actualWeight := Some weight,
                      completed := True, endTime := Some now\<rparr>]"
    let ?st1 = "st\<lparr>sessionState := Some (s\<lparr>completedSets := ?cs\<rparr>)\<rparr>"
    have inv1: "session_inv wk ?st1"
      using s by (simp add: session_inv_def cursor_ok_fields)
    have mv: "session_inv wk (moveToNextExercise ?st1)"
      by (rule moveToNextExercise_inv [OF assms(1) inv1])
    have rs: "session_inv wk (?st1\<lparr>restTimeState := r, currentTimer := t\<rparr>)" for r t
      using inv1 by (simp add: session_inv_def)
    show ?thesis
      using s Some mv rs
      by (simp add: completeSet_def Let_def split: option.splits)
  qed
qed

lemma moveToNextSet_inv:
  assumes "every_exercise_has_a_set wk" "session_inv wk st"
  shows "session_inv wk (moveToNextSet st)"
proof -
  from assms(2) obtain s where s: "workoutState st = Some wk" "sessionState st = Some s" "cursor_ok wk s"
    by (rule session_invE)
  show ?thesis
  proof (cases "getCurrentExercise st")
    case None
    then show ?thesis using s assms(2) by (simp add: moveToNextSet_def)
  next
    case (Some ex)
    then have ex: "js_index (exercises wk) (currentExerciseIndex s) = Some ex"
      using s by (simp add: getCurrentExercise_def)
    show ?thesis
    proof (cases "currentSetIndex s < int (length (sets ex)) - 1")
      case True
      have "cursor_ok wk (s\<lparr>currentSetIndex := currentSetIndex s + 1\<rparr>)"
        using ex True cursor_ok_set_nonneg [OF s(3)]
        by (simp add: cursor_ok_def cursor_indexes_pair_def js_index_def)
      then show ?thesis
        using s Some True by (simp add: moveToNextSet_def session_inv_def)
    next
      case False
      then show ?thesis
        using s Some moveToNextExercise_inv [OF assms] 
        by (simp add: moveToNextSet_def session_inv_timer)
    qed
  qed
qed

lemma pauseWorkout_inv: "session_inv wk st \<Longrightarrow> session_inv wk (pauseWorkout st)"
  by (auto simp: session_inv_def pauseWorkout_def cursor_ok_fields split: option.splits)

lemma resumeWorkout_inv: "session_inv wk st \<Longrightarrow> session_inv wk (resumeWorkout st)"
  by (auto simp: session_inv_def resumeWorkout_def cursor_ok_fields split: option.splits)

lemma perform_action_inv:
  assumes "every_exercise_has_a_set wk" "session_inv wk st"
  shows "session_inv wk (perform_action a st)"
proof (cases a)
  case (CompleteSet now reps weight)
  then show ?thesis
    using assms completeSet_inv [OF assms, of now reps weight]
    by (simp add: handleComplete_def)
next
  case RestComplete
  have "session_inv wk (st\<lparr>currentTimer := None\<rparr>)"
    using assms(2) by (simp add: session_inv_timer)
  then show ?thesis
    using RestComplete moveToNextSet_inv [OF assms(1)] by (simp add: handleRestComplete_def)
next
  case SkipRest
  have "session_inv wk (st\<lparr>currentTimer := None\<rparr>)"
    using assms(2) by (simp add: session_inv_timer)
  then show ?thesis
    using SkipRest moveToNextSet_inv [OF assms(1)] by (simp add: skipRest_def)
next
  case Pause
  then show ?thesis using pauseWorkout_inv [OF assms(2)] by simp
next
  case Resume
  then show ?thesis using resumeWorkout_inv [OF assms(2)] by simp
qed

lemma fresh_cursor_ok:
  assumes "every_exercise_has_a_set wk"
  shows "cursor_ok wk
     \<lparr>sessionId = uuid, sessionWorkoutId = k, startTime = now,
      currentExerciseIndex = 0, currentSetIndex = 0, isPaused = False,
      totalRestTime = 0, completedSets = [], sessionNotes = ''''\<rparr>"
proof (cases "exercises wk")
  case Nil
  then show ?thesis by (simp add: cursor_ok_def past_last_set_def)
next
  case (Cons e es)
  then have "0 < length (sets (exercises wk ! nat 0))"
    by (intro nonempty_sets_at [OF assms]) simp_all
  then show ?thesis
    using Cons by (simp add: cursor_ok_def cursor_indexes_pair_def js_index_def)
qed

lemma reachable_session_inv:
  assumes "every_exercise_has_a_set wk" "reachable wk st"
  shows "session_inv wk st"
  using assms(2)
proof (induction rule: reachable.induct)
  case (fresh existingSession uuid now)
  then show ?case
    using fresh_cursor_ok [OF assms(1)]
    by (auto simp: session_inv_def loadWorkout_def initializeSession_def initial_executor_def)
next
  case (restored snapshot uuid now)
  then show ?case
    by (simp add: session_inv_def loadWorkout_def initial_executor_def)
next
  case (acted st a)
  then show ?case by (simp add: perform_action_inv [OF assms(1)])
qed

lemma loadWorkout_adopts_snapshot:
  "sessionState (loadWorkout uuid now True (Some wk) (Parsed snapshot) st) = Some snapshot"
  by (simp add: loadWorkout_def)

text \<open>
  C2, as amended. For a workout each of whose exercises has at least one set, every
  session state reached from a fresh start, or from restoring a snapshot whose cursor is
  in range for the workout, by completing sets, finishing or skipping rests, pausing and
  resuming, has a cursor that indexes an exercise/set pair of the workout or stands at the
  position after the last set.
\<close>

theorem reachable_cursor_in_range:
  assumes "every_exercise_has_a_set workout" and "reachable workout st"
  shows "workoutState st = Some workout
         \<and> (case sessionState st of None \<Rightarrow> False | Some session \<Rightarrow> cursor_ok workout session)"
  using reachable_session_inv [OF assms] by (simp add: session_inv_def)

theorem reachable_cursor_in_range_witness:
  "every_exercise_has_a_set
     (sample_workout ''1'' 0
        [sample_exercise ''ex1'' ''1'' [sample_set ''set1'' 10 None 16 None],
         sample_exercise ''ex2'' ''2'' [sample_set ''set2'' 5 None 24 None]])
   \<and> reachable
     (sample_workout ''1'' 0
        [sample_exercise ''ex1'' ''1'' [sample_set ''set1'' 10 None 16 None],
         sample_exercise ''ex2'' ''2'' [sample_set ''set2'' 5 None 24 None]])
     (perform_action (CompleteSet 60000 10 16)
        (loadWorkout ''s1'' 0 True
           (Some (sample_workout ''1'' 0
              [sample_exercise ''ex1'' ''1'' [sample_set ''set1'' 10 None 16 None],
               sample_exercise ''ex2'' ''2'' [sample_set ''set2'' 5 None 24 None]]))
           NoItem initial_executor))
   \<and> (case sessionState
        (perform_action (CompleteSet 60000 10 16)
          (loadWorkout ''s1'' 0 True
             (Some (sample_workout ''1'' 0
                [sample_exercise ''ex1'' ''1'' [sample_set ''set1'' 10 None 16 None],
                 sample_exercise ''ex2'' ''2'' [sample_set ''set2'' 5 None 24 None]]))
             NoItem initial_executor)) of
        None \<Rightarrow> False
      | Some session \<Rightarrow>
          cursor_ok
            (sample_workout ''1'' 0
              [sample_exercise ''ex1'' ''1'' [sample_set ''set1'' 10 None 16 None],
               sample_exercise ''ex2'' ''2'' [sample_set ''set2'' 5 None 24 None]])
            session)"
proof -
  let ?w = "sample_workout ''1'' 0
        [sample_exercise ''ex1'' ''1'' [sample_set ''set1'' 10 None 16 None],
         sample_exercise ''ex2'' ''2'' [sample_set ''set2'' 5 None 24 None]]"
  have wf: "every_exercise_has_a_set ?w"
    by (simp add: every_exercise_has_a_set_def sample_workout_def sample_exercise_def)
  have "reachable ?w (loadWorkout ''s1'' 0 True (Some ?w) NoItem initial_executor)"
    by (rule reachable.fresh) simp
  then have r: "reachable ?w (perform_action (CompleteSet 60000 10 16)
      (loadWorkout ''s1'' 0 True (Some ?w) NoItem initial_executor))"
    by (rule reachable.acted)
  show ?thesis
    using wf r reachable_cursor_in_range [OF wf r] by blast
qed

text \<open>
  C2 as stated fails for a workout with an exercise that has no set: completing the one
  set of the first exercise moves the cursor to (1, 0), which indexes no set and is not the
  position after the last set, the third exercise being still to come.
\<close>

theorem cursor_on_empty_exercise_counterexample:
  "reachable
     (sample_workout ''1'' 0
        [sample_exercise ''ex1'' ''1'' [sample_set ''set1'' 10 None 16 None],
         sample_exercise ''ex2'' ''2'' [],
         sample_exercise ''ex3'' ''1'' [sample_set ''set3'' 10 None 16 None]])
     (perform_action (CompleteSet 60000 10 16)
        (loadWorkout ''s1'' 0 True
           (Some (sample_workout ''1'' 0
              [sample_exercise ''ex1'' ''1'' [sample_set ''set1'' 10 None 16 None],
               sample_exercise ''ex2'' ''2'' [],
               sample_exercise ''ex3'' ''1'' [sample_set ''set3'' 10 None 16 None]]))
           NoItem initial_executor))
   \<and> map_option
        (cursor_summary
           (sample_workout ''1'' 0
              [sample_exercise ''ex1'' ''1'' [sample_set ''set1'' 10 None 16 None],
               sample_exercise ''ex2'' ''2'' [],
               sample_exercise ''ex3'' ''1'' [sample_set ''set3'' 10 None 16 None]]))
        (sessionState
          (perform_action (CompleteSet 60000 10 16)
            (loadWorkout ''s1'' 0 True
               (Some (sample_workout ''1'' 0
                  [sample_exercise ''ex1'' ''1'' [sample_set ''set1'' 10 None 16 None],
                   sample_exercise ''ex2'' ''2'' [],
                   sample_exercise ''ex3'' ''1'' [sample_set ''set3'' 10 None 16 None]]))
               NoItem initial_executor)))
      = Some (1, 0, False)"
proof -
  let ?w = "sample_workout ''1'' 0
        [sample_exercise ''ex1'' ''1'' [sample_set ''set1'' 10 None 16 None],
         sample_exercise ''ex2'' ''2'' [],
         sample_exercise ''ex3'' ''1'' [sample_set ''set3'' 10 None 16 None]]"
  have "reachable ?w (loadWorkout ''s1'' 0 True (Some ?w) NoItem initial_executor)"
    by (rule reachable.fresh) simp
  then have r: "reachable ?w (perform_action (CompleteSet 60000 10 16)
      (loadWorkout ''s1'' 0 True (Some ?w) NoItem initial_executor))"
    by (rule reachable.acted)
  have "map_option (cursor_summary ?w)
        (sessionState (perform_action (CompleteSet 60000 10 16)
            (loadWorkout ''s1'' 0 True (Some ?w) NoItem initial_executor)))
      = Some (1, 0, False)"
    by (simp add: handleComplete_def completeSet_def getCurrentSet_def getCurrentExercise_def
        moveToNextExercise_def loadWorkout_def initializeSession_def initial_executor_def
        js_index_def cursor_summary_def cursor_ok_def cursor_indexes_pair_def past_last_set_def
        sample_workout_def sample_exercise_def sample_set_def Let_def)
  with r show ?thesis by blast
qed

text \<open>
  C3, as amended. The check of the entered values is made by \<open>handleComplete\<close> of the
  set tracker, through which every completion goes: with a repetition count that is not
  positive or a negative weight it returns without calling \<open>completeSet\<close> and the whole
  state, cursor and completed sets included, is as before; with valid values it hands
  them to \<open>completeSet\<close>.
\<close>

theorem handleComplete_rejects_invalid_values:
  "(reps \<le> 0 \<or> weight < 0 \<longrightarrow> handleComplete (completeSet now) reps weight st = st)
   \<and> (reps \<le> 0 \<or> weight < 0 \<longrightarrow> perform_action (CompleteSet now reps weight) st = st)
   \<and> (0 < reps \<and> 0 \<le> weight \<longrightarrow>
        handleComplete (completeSet now) reps weight st = completeSet now reps weight st)"
  by (auto simp: handleComplete_def)

theorem handleComplete_rejects_invalid_values_witness:
  "((0::real) \<le> 0 \<or> (16::real) < 0)
   \<and> handleComplete (completeSet 60000) 0 16
        (loadWorkout ''s1'' 0 True
           (Some (sample_workout ''1'' 0
              [sample_exercise ''ex1'' ''1'' [sample_set ''set1'' 10 None 16 None]]))
           NoItem initial_executor)
      = loadWorkout ''s1'' 0 True
           (Some (sample_workout ''1'' 0
              [sample_exercise ''ex1'' ''1'' [sample_set ''set1'' 10 None 16 None]]))
           NoItem initial_executor
   \<and> ((0::real) < 10 \<and> (0::real) \<le> 16)
   \<and> handleComplete (completeSet 60000) 10 16
        (loadWorkout ''s1'' 0 True
           (Some (sample_workout ''1'' 0
              [sample_exercise ''ex1'' ''1'' [sample_set ''set1'' 10 None 16 None]]))
           NoItem initial_executor)
      = completeSet 60000 10 16
        (loadWorkout ''s1'' 0 True
           (Some (sample_workout ''1'' 0
              [sample_exercise ''ex1'' ''1'' [sample_set ''set1'' 10 None 16 None]]))
           NoItem initial_executor)"
  using handleComplete_rejects_invalid_values [of 0 16 60000
      "loadWorkout ''s1'' 0 True
           (Some (sample_workout ''1'' 0
              [sample_exercise ''ex1'' ''1'' [sample_set ''set1'' 10 None 16 None]]))
           NoItem initial_executor"]
    handleComplete_rejects_invalid_values [of 10 16 60000
      "loadWorkout ''s1'' 0 True
           (Some (sample_workout ''1'' 0
              [sample_exercise ''ex1'' ''1'' [sample_set ''set1'' 10 None 16 None]]))
           NoItem initial_executor"]
  by simp

text \<open>
  C3 as stated fails: \<open>completeSet\<close> itself checks nothing. Called with 0 repetitions
  and a weight of -5 on a fresh session it records the set with these values.
\<close>

theorem completeSet_accepts_invalid_values_counterexample:
  "map_option completed_summary
     (sessionState
        (completeSet 60000 0 (- 5)
          (loadWorkout ''s1'' 0 True
             (Some (sample_workout ''1'' 0
                [sample_exercise ''ex1'' ''1''
                   [sample_set ''set1'' 10 None 16 None, sample_set ''set2'' 10 None 16 None]]))
             NoItem initial_executor)))
     = Some [(''set1'', Some 0, Some (- 5), True)]
   \<and> map_option completedSets
     (sessionState
          (loadWorkout ''s1'' 0 True
             (Some (sample_workout ''1'' 0
                [sample_exercise ''ex1'' ''1''
                   [sample_set ''set1'' 10 None 16 None, sample_set ''set2'' 10 None 16 None]]))
             NoItem initial_executor))
     = Some []"
  by (simp add: completeSet_def getCurrentSet_def getCurrentExercise_def
      moveToNextExercise_def loadWorkout_def initializeSession_def initial_executor_def
      js_index_def completed_summary_def sample_workout_def sample_exercise_def sample_set_def
      Let_def)

section \<open>Properties of the countdown timer\<close>

lemma best_effort_skip: "best_effort skip"
  by (simp add: best_effort_def skip_def)

lemma best_effort_guarded:
  assumes "ev \<noteq> CalledOnComplete"
  shows "best_effort (try_catch (perform oc ev) (console_warn msg))"
  using assms
  by (cases oc) (simp_all add: best_effort_def try_catch_def perform_def console_warn_def)

lemma best_effort_seq:
  assumes "best_effort a" "best_effort b"
  shows "best_effort (seq a b)"
  unfolding best_effort_def
proof
  fix trace
  from assms(1) obtain xs where a: "a trace = (Returned, trace @ xs)" "CalledOnComplete \<notin> set xs"
    unfolding best_effort_def by blast
  from assms(2) obtain ys where b: "b (trace @ xs) = (Returned, (trace @ xs) @ ys)"
    "CalledOnComplete \<notin> set ys"
    unfolding best_effort_def by blast
  have "seq a b trace = (Returned, trace @ (xs @ ys))" "CalledOnComplete \<notin> set (xs @ ys)"
    using a b by (simp_all add: seq_def)
  then show "\<exists>zs. seq a b trace = (Returned, trace @ zs) \<and> CalledOnComplete \<notin> set zs"
    by blast
qed

lemma best_effort_try:
  assumes "\<forall>trace. \<exists>xs. CalledOnComplete \<notin> set xs
             \<and> (body trace = (Returned, trace @ xs) \<or> body trace = (Raised, trace @ xs))"
  shows "best_effort (try_catch body (console_warn msg))"
  unfolding best_effort_def
proof
  fix trace
  from assms obtain xs where xs: "CalledOnComplete \<notin> set xs"
    "body trace = (Returned, trace @ xs) \<or> body trace = (Raised, trace @ xs)"
    by blast
  from xs(2) show "\<exists>zs. try_catch body (console_warn msg) trace = (Returned, trace @ zs)
                        \<and> CalledOnComplete \<notin> set zs"
  proof
    assume "body trace = (Returned, trace @ xs)"
    then have "try_catch body (console_warn msg) trace = (Returned, trace @ xs)"
      by (simp add: try_catch_def)
    with xs(1) show ?thesis by blast
  next
    assume "body trace = (Raised, trace @ xs)"
    then have "try_catch body (console_warn msg) trace = (Returned, trace @ (xs @ [Warned msg]))"
      by (simp add: try_catch_def console_warn_def perform_def)
    moreover have "CalledOnComplete \<notin> set (xs @ [Warned msg])" using xs(1) by simp
    ultimately show ?thesis by blast
  qed
qed

lemma best_effort_showNotification: "best_effort (showNotification env ty)"
proof (cases "notificationInWindow env \<and> permissionGranted env")
  case False
  then show ?thesis
    using best_effort_skip by (auto simp: showNotification_def)
next
  case True
  have "\<forall>trace. \<exists>xs. CalledOnComplete \<notin> set xs
      \<and> (seq (perform (newNotification env) (ShowedNotification ty))
              (if ty \<noteq> WorkoutTimer then perform Succeeds ScheduledClose else skip) trace
            = (Returned, trace @ xs)
         \<or> seq (perform (newNotification env) (ShowedNotification ty))
              (if ty \<noteq> WorkoutTimer then perform Succeeds ScheduledClose else skip) trace
            = (Raised, trace @ xs))"
  proof
    fix trace
    show "\<exists>xs. CalledOnComplete \<notin> set xs
      \<and> (seq (perform (newNotification env) (ShowedNotification ty))
              (if ty \<noteq> WorkoutTimer then perform Succeeds ScheduledClose else skip) trace
            = (Returned, trace @ xs)
         \<or> seq (perform (newNotification env) (ShowedNotification ty))
              (if ty \<noteq> WorkoutTimer then perform Succeeds ScheduledClose else skip) trace
            = (Raised, trace @ xs))"
    proof (cases "newNotification env")
      case Throws
      then have "seq (perform (newNotification env) (ShowedNotification ty))
              (if ty \<noteq> WorkoutTimer then perform Succeeds ScheduledClose else skip) trace
            = (Raised, trace @ [])"
        by (simp add: seq_def perform_def)
      then show ?thesis by (intro exI [of _ "[]"]) simp
    next
      case Succeeds
      show ?thesis
      proof (cases "ty = WorkoutTimer")
        case True
        with Succeeds have "seq (perform (newNotification env) (ShowedNotification ty))
              (if ty \<noteq> WorkoutTimer then perform Succeeds ScheduledClose else skip) trace
            = (Returned, trace @ [ShowedNotification ty])"
          by (simp add: seq_def perform_def skip_def)
        then show ?thesis by (intro exI [of _ "[ShowedNotification ty]"]) simp
      next
        case False
        with Succeeds have "seq (perform (newNotification env) (ShowedNotification ty))
              (if ty \<noteq> WorkoutTimer then perform Succeeds ScheduledClose else skip) trace
            = (Returned, trace @ [ShowedNotification ty, ScheduledClose])"
          by (simp add: seq_def perform_def)
        then show ?thesis by (intro exI [of _ "[ShowedNotification ty, ScheduledClose]"]) simp
      qed
    qed
  qed
  then have "best_effort (try_catch (seq (perform (newNotification env) (ShowedNotification ty))
              (if ty \<noteq> WorkoutTimer then perform Succeeds ScheduledClose else skip))
            (console_warn ''Failed to show notification:''))"
    by (rule best_effort_try)
  with True show ?thesis by (simp add: showNotification_def)
qed

lemma best_effort_vibration:
  "best_effort (if vibratorInNavigator env
          then try_catch
                 (case vibrate env of None \<Rightarrow> skip | Some oc \<Rightarrow> perform oc Vibrated)
                 (console_warn ''Vibration failed:'')
          else skip)"
proof (cases "vibrate env")
  case None
  have "best_effort (try_catch skip (console_warn ''Vibration failed:''))"
    by (simp add: best_effort_def try_catch_def skip_def)
  with None show ?thesis using best_effort_skip by simp
next
  case (Some oc)
  then show ?thesis
    using best_effort_skip best_effort_guarded [of Vibrated oc "''Vibration failed:''"] by simp
qed

lemma calls_back_once_seq:
  assumes "best_effort a" "calls_back_once b"
  shows "calls_back_once (seq a b)"
  unfolding calls_back_once_def
proof
  fix trace
  from assms(1) obtain xs where a: "a trace = (Returned, trace @ xs)" "CalledOnComplete \<notin> set xs"
    unfolding best_effort_def by blast
  from assms(2) obtain ys where b: "b (trace @ xs) = (Returned, (trace @ xs) @ ys @ [CalledOnComplete])"
    "CalledOnComplete \<notin> set ys"
    unfolding calls_back_once_def by blast
  have "seq a b trace = (Returned, trace @ (xs @ ys) @ [CalledOnComplete])"
    "CalledOnComplete \<notin> set (xs @ ys)"
    using a b by (simp_all add: seq_def)
  then show "\<exists>zs. seq a b trace = (Returned, trace @ zs @ [CalledOnComplete])
                  \<and> CalledOnComplete \<notin> set zs"
    by blast
qed

lemma calls_back_once_callback: "calls_back_once (perform Succeeds CalledOnComplete)"
  unfolding calls_back_once_def
  by (intro allI exI [of _ "[]"]) (simp add: perform_def)

lemma handleTimerComplete_calls_back:
  "calls_back_once (handleTimerComplete env ty (Some Succeeds))"
  unfolding handleTimerComplete_def
  by (intro calls_back_once_seq best_effort_guarded best_effort_showNotification
      best_effort_vibration) (simp_all add: calls_back_once_callback)

lemma handleTimerComplete_no_callback:
  "best_effort (handleTimerComplete env ty None)"
  unfolding handleTimerComplete_def
  by (intro best_effort_seq best_effort_guarded best_effort_showNotification
      best_effort_vibration) (simp_all add: best_effort_skip)

lemma tick_last_second:
  assumes "0 < timeRemaining st" "timeRemaining st \<le> 1"
  shows "tick env st trace = (st\<lparr>timeRemaining := 0, isRunning := False\<rparr>, Returned, trace)"
  using assms by (simp add: tick_def Let_def skip_def)

text \<open>
  C9. When the countdown completes, the completion handler returns normally and has
  invoked the completion callback exactly once, as its last step, whatever the sound, the
  notification and the vibration do: each may throw or be unavailable, and every such
  failure is caught and logged. The same holds for the last second of a running timer:
  it reaches 0, stops, and the callback is invoked. Without a callback property the
  handler still returns normally.
\<close>

theorem timer_completion_calls_back_despite_failures:
  "(\<exists>xs. handleTimerComplete env ty (Some Succeeds) trace
            = (Returned, trace @ xs @ [CalledOnComplete])
          \<and> CalledOnComplete \<notin> set xs)
   \<and> fst (handleTimerComplete env ty None trace) = Returned
   \<and> (isRunning st \<and> isActive \<and> hasStarted st \<and> 0 < timeRemaining st \<and> timeRemaining st \<le> 1 \<longrightarrow>
        timeRemaining (fst (timer_second env ty (Some Succeeds) isActive st trace)) = 0
        \<and> \<not> isRunning (fst (timer_second env ty (Some Succeeds) isActive st trace))
        \<and> (\<exists>xs. snd (timer_second env ty (Some Succeeds) isActive st trace)
                   = (Returned, trace @ xs @ [CalledOnComplete])
                 \<and> CalledOnComplete \<notin> set xs))"
proof -
  have a: "\<exists>xs. handleTimerComplete env ty (Some Succeeds) trace
            = (Returned, trace @ xs @ [CalledOnComplete])
          \<and> CalledOnComplete \<notin> set xs"
    using handleTimerComplete_calls_back [of env ty] unfolding calls_back_once_def by blast
  have b: "fst (handleTimerComplete env ty None trace) = Returned"
  proof -
    obtain xs where "handleTimerComplete env ty None trace = (Returned, trace @ xs)"
      using handleTimerComplete_no_callback [of env ty] unfolding best_effort_def by blast
    then show ?thesis by simp
  qed
  have c: "timeRemaining (fst (timer_second env ty (Some Succeeds) isActive st trace)) = 0
        \<and> \<not> isRunning (fst (timer_second env ty (Some Succeeds) isActive st trace))
        \<and> (\<exists>xs. snd (timer_second env ty (Some Succeeds) isActive st trace)
                   = (Returned, trace @ xs @ [CalledOnComplete])
                 \<and> CalledOnComplete \<notin> set xs)"
    if h: "isRunning st \<and> isActive \<and> hasStarted st \<and> 0 < timeRemaining st \<and> timeRemaining st \<le> 1"
  proof -
    have t: "tick env st trace = (st\<lparr>timeRemaining := 0, isRunning := False\<rparr>, Returned, trace)"
      using h by (intro tick_last_second) simp_all
    have "timer_second env ty (Some Succeeds) isActive st trace
            = (st\<lparr>timeRemaining := 0, isRunning := False\<rparr>,
               handleTimerComplete env ty (Some Succeeds) trace)"
      using h by (simp add: timer_second_def t completion_effect_def)
    then show ?thesis using a by simp
  qed
  from a b c show ?thesis by blast
qed

theorem timer_completion_calls_back_despite_failures_witness:
  "isRunning \<lparr>timeRemaining = 1, isRunning = True, timerPaused = False, hasStarted = True\<rparr>
   \<and> hasStarted \<lparr>timeRemaining = 1, isRunning = True, timerPaused = False, hasStarted = True\<rparr>
   \<and> 0 < timeRemaining \<lparr>timeRemaining = 1, isRunning = True, timerPaused = False, hasStarted = True\<rparr>
   \<and> timeRemaining \<lparr>timeRemaining = 1, isRunning = True, timerPaused = False, hasStarted = True\<rparr> \<le> 1
   \<and> timer_second
        \<lparr>playSound = (\<lambda>ty. Throws), playTick = Throws, notificationInWindow = True,
         permissionGranted = True, newNotification = Throws, vibratorInNavigator = True,
         vibrate = Some Throws\<rparr>
        RestTimer (Some Succeeds) True
        \<lparr>timeRemaining = 1, isRunning = True, timerPaused = False, hasStarted = True\<rparr> []
      = (\<lparr>timeRemaining = 0, isRunning = False, timerPaused = False, hasStarted = True\<rparr>,
         Returned,
         [Warned ''Failed to play completion sound:'', Warned ''Failed to show notification:'',
          Warned ''Vibration failed:'', CalledOnComplete])"
proof -
  let ?env = "\<lparr>playSound = (\<lambda>ty. Throws), playTick = Throws, notificationInWindow = True,
         permissionGranted = True, newNotification = Throws, vibratorInNavigator = True,
         vibrate = Some Throws\<rparr>"
  let ?st = "\<lparr>timeRemaining = 1, isRunning = True, timerPaused = False, hasStarted = True\<rparr>"
  have "\<exists>xs. snd (timer_second ?env RestTimer (Some Succeeds) True ?st [])
                   = (Returned, [] @ xs @ [CalledOnComplete])
                 \<and> CalledOnComplete \<notin> set xs"
    using timer_completion_calls_back_despite_failures [of ?env RestTimer "[]" ?st True]
    by simp
  moreover have "timer_second ?env RestTimer (Some Succeeds) True ?st []
      = (\<lparr>timeRemaining = 0, isRunning = False, timerPaused = False, hasStarted = True\<rparr>,
         Returned,
         [Warned ''Failed to play completion sound:'', Warned ''Failed to show notification:'',
          Warned ''Vibration failed:'', CalledOnComplete])"
    by (simp add: timer_second_def tick_def completion_effect_def handleTimerComplete_def
        showNotification_def seq_def try_catch_def perform_def console_warn_def skip_def Let_def)
  ultimately show ?thesis by simp
qed

end
